theory Spec2Isabelle
  imports Main "HOL-Library.AList" "HOL-Library.Multiset"
begin

section \<open>Values of the handlers\<close>

text \<open>
  The handlers of \<^verbatim>\<open>src/index.ts\<close> work on untyped JavaScript values: request bodies
  parsed from JSON, object literals handed to the ORM client, rows it returns. A value is
  modelled as it is there. \<open>VDate\<close> is a \<^verbatim>\<open>Date\<close> with its time value in milliseconds; a
  JSON number is an integer here (no handler computes with one beyond comparing it).
  \<^verbatim>\<open>undefined\<close> is \<open>None\<close> of \<open>val option\<close>: reading a property an object does not have.
\<close>

datatype val =
    VNull
  | VBool bool
  | VNum int
  | VStr string
  | VDate int
  | VArr "val list"
  | VObj "(string \<times> val) list"

type_synonym obj = "(string \<times> val) list"

text \<open>An object literal as the handlers write it: a property may hold \<^verbatim>\<open>undefined\<close>.\<close>

type_synonym literal = "(string \<times> val option) list"

text \<open>\<^verbatim>\<open>x?.k\<close>: \<^verbatim>\<open>undefined\<close> when \<open>x\<close> is null or undefined; a primitive or an array
  has none of the property names read in this program.\<close>

fun opt_chain :: "val option \<Rightarrow> string \<Rightarrow> val option" where
  "opt_chain (Some (VObj ps)) k = map_of ps k"
| "opt_chain _ k = None"

text \<open>JavaScript truthiness, \<^verbatim>\<open>a || b\<close> and \<^verbatim>\<open>a ?? b\<close>.\<close>

fun truthy :: "val option \<Rightarrow> bool" where
  "truthy None = False"
| "truthy (Some VNull) = False"
| "truthy (Some (VBool b)) = b"
| "truthy (Some (VNum n)) = (n \<noteq> 0)"
| "truthy (Some (VStr s)) = (s \<noteq> [])"
| "truthy (Some _) = True"

definition js_or :: "val option \<Rightarrow> val option \<Rightarrow> val option" where
  "js_or a b = (if truthy a then a else b)"

fun coalesce :: "val option \<Rightarrow> val option \<Rightarrow> val option" where
  "coalesce None b = b"
| "coalesce (Some VNull) b = b"
| "coalesce a b = a"

text \<open>The ORM client ignores a property that holds \<^verbatim>\<open>undefined\<close>: the column is not
  written.\<close>

fun defined :: "literal \<Rightarrow> obj" where
  "defined [] = []"
| "defined ((k, None) # ps) = defined ps"
| "defined ((k, Some v) # ps) = (k, v) # defined ps"

text \<open>Writing columns into a row (and \<^verbatim>\<open>{...row, k: v}\<close>): the written ones win.\<close>

definition assign :: "obj \<Rightarrow> obj \<Rightarrow> obj" where
  "assign row cols = AList.merge row cols"

section \<open>The store, the schema and the responses\<close>

text \<open>
  The persistence layer holds one table per model, a row being an object from column name
  to value, in insertion order. \<open>emitted\<close> is the log of what the two socket namespaces
  broadcast: namespace, event name, payload. A handler is a function from the request and
  the store to the response and the store it leaves. The database itself does not fail in
  the model (a \<^verbatim>\<open>catch\<close> branch of a read-only handler is never taken), and what a
  handler logs is left out.
\<close>

record world =
  agents :: "obj list"
  relationships :: "obj list"
  conversations :: "obj list"
  messages :: "obj list"
  events :: "obj list"
  waitlist :: "obj list"
  emitted :: "(string \<times> string \<times> val) list"

text \<open>
  The schema file of the repository (\<^verbatim>\<open>prisma/schema.prisma\<close>) is not among the sources, so
  what it decides is a parameter of the model: which data the client's type check of a
  write accepts, per model, and which values the columns a create leaves out get.
  \<open>pair_unique\<close> is the uniqueness constraint over a relationship's pair of agents, and
  \<open>date_parse\<close> is the runtime's \<^verbatim>\<open>new Date(v)\<close>, \<open>None\<close> for an invalid date.
\<close>

datatype pair_constraint = Ordered | Either_order

record env =
  accepts_create :: "string \<Rightarrow> obj \<Rightarrow> bool"
  accepts_update :: "string \<Rightarrow> obj \<Rightarrow> bool"
  defaults :: "string \<Rightarrow> obj"
  pair_unique :: pair_constraint
  date_parse :: "val \<Rightarrow> int option"

text \<open>What a call of the client throws: the ORM's error codes the handlers test for
  (\<open>P2002\<close> unique constraint, \<open>P2003\<close> foreign key, \<open>P2025\<close> record not found), its
  validation error, and the runtime's \<^verbatim>\<open>TypeError\<close>.\<close>

datatype failure = P2002 | P2003 | P2025 | Validation | TypeError

text \<open>\<^verbatim>\<open>res.status(n).json(v)\<close>; \<^verbatim>\<open>res.json(v)\<close> is status 200.\<close>

datatype response = Response nat val

definition error_body :: "string \<Rightarrow> val" where
  "error_body msg = VObj [(''error'', VStr msg)]"

subsection \<open>Queries\<close>

definition has_id :: "string \<Rightarrow> obj \<Rightarrow> bool" where
  "has_id i row = (map_of row ''id'' = Some (VStr i))"

definition find_by_id :: "string \<Rightarrow> obj list \<Rightarrow> obj option" where
  "find_by_id i rows = find (has_id i) rows"

text \<open>A relation loaded by \<^verbatim>\<open>include\<close>: the row the foreign key names, with its
  own nested relations (\<open>expand\<close>), or null.\<close>

definition load :: "(obj \<Rightarrow> obj) \<Rightarrow> obj list \<Rightarrow> val option \<Rightarrow> val" where
  "load expand rows ref =
     (case ref of
        Some (VStr i) \<Rightarrow> (case find_by_id i rows of Some r \<Rightarrow> VObj (expand r) | None \<Rightarrow> VNull)
      | _ \<Rightarrow> VNull)"

text \<open>A foreign key the database accepts: a string that is the id of a row.\<close>

definition is_ref :: "obj list \<Rightarrow> val option \<Rightarrow> bool" where
  "is_ref rows ref =
     (case ref of Some (VStr i) \<Rightarrow> find_by_id i rows \<noteq> None | _ \<Rightarrow> False)"

text \<open>\<^verbatim>\<open>where: { c: { in: [...] } }\<close> and \<^verbatim>\<open>where: { c: { gte: n } }\<close>; a null
  column matches neither.\<close>

definition column_in :: "string \<Rightarrow> val list \<Rightarrow> obj \<Rightarrow> bool" where
  "column_in c vs row = (case map_of row c of Some v \<Rightarrow> v \<in> set vs | None \<Rightarrow> False)"

fun gte :: "val option \<Rightarrow> int \<Rightarrow> bool" where
  "gte (Some (VNum n)) k = (k \<le> n)"
| "gte _ k = False"

text \<open>The time value of a column that holds a \<^verbatim>\<open>Date\<close>, and the number of a numeric
  column. The tables hold a date, a number, in such a column; any other value counts 0.\<close>

fun time_of :: "val option \<Rightarrow> int" where
  "time_of (Some (VDate t)) = t"
| "time_of _ = 0"

fun num_of :: "val option \<Rightarrow> int" where
  "num_of (Some (VNum n)) = n"
| "num_of _ = 0"

text \<open>\<^verbatim>\<open>orderBy: { c: "desc" }\<close>. Rows with equal keys stay in table order (the
  database leaves their order open).\<close>

definition order_desc :: "(obj \<Rightarrow> int) \<Rightarrow> obj list \<Rightarrow> obj list" where
  "order_desc key rows = sort_key (\<lambda>r. - key r) rows"

text \<open>\<^verbatim>\<open>take: n\<close>: the first \<open>n\<close> rows of the ordering, and for a negative \<open>n\<close> its last
  \<open>-n\<close> rows.\<close>

definition prisma_take :: "int \<Rightarrow> 'a list \<Rightarrow> 'a list" where
  "prisma_take n rows =
     (if 0 \<le> n then take (nat n) rows else drop (length rows - nat (- n)) rows)"

text \<open>\<^verbatim>\<open>xs.slice(0, n)\<close>: a negative \<open>n\<close> counts from the end.\<close>

definition slice0 :: "int \<Rightarrow> 'a list \<Rightarrow> 'a list" where
  "slice0 n xs = (if 0 \<le> n then take (nat n) xs else take (length xs - nat (- n)) xs)"

text \<open>
  Modelled from the spec: the id of a row the persistence layer creates (relationship,
  message, waitlist entry) is assigned by that layer; the schema's generator is missing.
  The model takes a string longer than every id of the table, which is therefore new.
\<close>

definition id_length :: "obj \<Rightarrow> nat" where
  "id_length row = (case map_of row ''id'' of Some (VStr i) \<Rightarrow> length i | _ \<Rightarrow> 0)"

definition fresh_id :: "obj list \<Rightarrow> string" where
  "fresh_id rows = replicate (Suc (fold max (map id_length rows) 0)) (CHR ''x'')"

section \<open>Agents\<close>

subsection \<open>The client's upsert and update on the agent model\<close>

text \<open>
  \<^verbatim>\<open>prisma.agent.upsert({ where: { id }, update, create })\<close>. The client checks its whole
  argument first: the id a string, both blocks of the right types. Then the row with the
  id is updated, or a row is created. Modelled from the spec: the created timestamp is
  assigned on the write.
\<close>

definition upsert_agent ::
  "env \<Rightarrow> int \<Rightarrow> val option \<Rightarrow> literal \<Rightarrow> literal \<Rightarrow> world \<Rightarrow> failure + (obj \<times> world)" where
  "upsert_agent env now where_id update create w =
     (case where_id of
        Some (VStr i) \<Rightarrow>
          if \<not> (accepts_update env ''agent'' (defined update)
                \<and> accepts_create env ''agent'' (defined create))
          then Inl Validation
          else (case find_by_id i (agents w) of
                  Some r \<Rightarrow>
                    let r' = assign r (defined update)
                    in Inr (r', w\<lparr>agents := map (\<lambda>x. if has_id i x then r' else x) (agents w)\<rparr>)
                | None \<Rightarrow>
                    let r' = assign (assign (defaults env ''agent'') [(''createdAt'', VDate now)])
                               (defined create)
                    in Inr (r', w\<lparr>agents := agents w @ [r']\<rparr>))
      | _ \<Rightarrow> Inl Validation)"

text \<open>\<^verbatim>\<open>prisma.agent.update({ where: { id }, data })\<close>: \<open>P2025\<close> when no row has the id.\<close>

definition update_agent ::
  "env \<Rightarrow> string \<Rightarrow> literal \<Rightarrow> world \<Rightarrow> failure + (obj \<times> world)" where
  "update_agent env i data w =
     (if \<not> accepts_update env ''agent'' (defined data) then Inl Validation
      else (case find_by_id i (agents w) of
              None \<Rightarrow> Inl P2025
            | Some r \<Rightarrow>
                let r' = assign r (defined data)
                in Inr (r', w\<lparr>agents := map (\<lambda>x. if has_id i x then r' else x) (agents w)\<rparr>)))"

subsection \<open>GET /api/agents/:id\<close>


subsection \<open>POST /api/agents\<close>

text \<open>The \<^verbatim>\<open>update\<close> block of the upsert; the \<^verbatim>\<open>create\<close> block is the same with the
  id in front.\<close>

definition post_agent_update :: "obj \<Rightarrow> literal" where
  "post_agent_update data =
     [(''name'', js_or (map_of data ''name'') (Some (VStr ''''))),
      (''gender'', map_of data ''gender''),
      (''pronouns'', map_of data ''pronouns''),
      (''datingPreference'', map_of data ''datingPreference''),
      (''bio'', map_of data ''bio''),
      (''interests'', map_of data ''interests''),
      (''dealBreakers'', map_of data ''dealBreakers''),
      (''idealPartner'', map_of data ''idealPartner''),
      (''openness'', coalesce (map_of data ''openness'') (opt_chain (map_of data ''bigFive'') ''openness'')),
      (''conscientiousness'', coalesce (map_of data ''conscientiousness'') (opt_chain (map_of data ''bigFive'') ''conscientiousness'')),
      (''extraversion'', coalesce (map_of data ''extraversion'') (opt_chain (map_of data ''bigFive'') ''extraversion'')),
      (''agreeableness'', coalesce (map_of data ''agreeableness'') (opt_chain (map_of data ''bigFive'') ''agreeableness'')),
      (''neuroticism'', coalesce (map_of data ''neuroticism'') (opt_chain (map_of data ''bigFive'') ''neuroticism'')),
      (''flirtatiousness'', coalesce (map_of data ''flirtatiousness'') (opt_chain (map_of data ''romance'') ''flirtatiousness'')),
      (''jealousy'', coalesce (map_of data ''jealousy'') (opt_chain (map_of data ''romance'') ''jealousy'')),
      (''commitment'', coalesce (map_of data ''commitment'') (opt_chain (map_of data ''romance'') ''commitment'')),
      (''emotionalExpression'', coalesce (map_of data ''emotionalExpression'') (opt_chain (map_of data ''romance'') ''emotionalExpression'')),
      (''playfulness'', coalesce (map_of data ''playfulness'') (opt_chain (map_of data ''romance'') ''playfulness'')),
      (''attachmentStyle'', map_of data ''attachmentStyle''),
      (''loveLanguage'', map_of data ''loveLanguage''),
      (''status'', js_or (map_of data ''status'') (Some (VStr ''single'')))]"

definition post_agent_create :: "obj \<Rightarrow> literal" where
  "post_agent_create data = (''id'', map_of data ''id'') # post_agent_update data"

definition post_agent :: "env \<Rightarrow> int \<Rightarrow> obj \<Rightarrow> world \<Rightarrow> response \<times> world" where
  "post_agent env now data w =
     (case upsert_agent env now (map_of data ''id'')
             (post_agent_update data) (post_agent_create data) w of
        Inr (agent, w') \<Rightarrow> (Response 200 (VObj agent), w')
      | Inl e \<Rightarrow> (Response 500 (error_body ''Failed to upsert agent''), w))"

text \<open>The trait columns, by the nested object that may carry them.\<close>

definition big_five :: "string list" where
  "big_five = [''openness'', ''conscientiousness'', ''extraversion'', ''agreeableness'',
     ''neuroticism'']"

definition romance :: "string list" where
  "romance = [''flirtatiousness'', ''jealousy'', ''commitment'', ''emotionalExpression'',
     ''playfulness'']"

subsection \<open>PUT /api/agents/:id/status\<close>

definition put_agent_status :: "env \<Rightarrow> int \<Rightarrow> string \<Rightarrow> obj \<Rightarrow> world \<Rightarrow> response \<times> world" where
  "put_agent_status env now i body w =
     (let status = map_of body ''status''; currentPartner = map_of body ''currentPartner''
      in case update_agent env i
                [(''status'', status),
                 (''currentPartner'', js_or currentPartner (Some VNull)),
                 (''lastActive'', Some (VDate now))] w of
           Inr (agent, w') \<Rightarrow> (Response 200 (VObj agent), w')
         | Inl e \<Rightarrow> (Response 500 (error_body ''Failed to update agent status''), w))"

subsection \<open>POST /api/agents/bulk\<close>

text \<open>The \<^verbatim>\<open>update\<close> block of the bulk upsert; its \<^verbatim>\<open>create\<close> block is the same
  with the id in front. Neither block has a status.\<close>

definition bulk_agent_update :: "obj \<Rightarrow> literal" where
  "bulk_agent_update data =
     [(''name'', js_or (map_of data ''name'') (Some (VStr ''''))),
      (''gender'', map_of data ''gender''),
      (''pronouns'', map_of data ''pronouns''),
      (''datingPreference'', map_of data ''datingPreference''),
      (''bio'', map_of data ''bio''),
      (''interests'', map_of data ''interests''),
      (''dealBreakers'', map_of data ''dealBreakers''),
      (''idealPartner'', map_of data ''idealPartner''),
      (''openness'', coalesce (opt_chain (map_of data ''bigFive'') ''openness'') (map_of data ''openness'')),
      (''conscientiousness'', coalesce (opt_chain (map_of data ''bigFive'') ''conscientiousness'') (map_of data ''conscientiousness'')),
      (''extraversion'', coalesce (opt_chain (map_of data ''bigFive'') ''extraversion'') (map_of data ''extraversion'')),
      (''agreeableness'', coalesce (opt_chain (map_of data ''bigFive'') ''agreeableness'') (map_of data ''agreeableness'')),
      (''neuroticism'', coalesce (opt_chain (map_of data ''bigFive'') ''neuroticism'') (map_of data ''neuroticism'')),
      (''flirtatiousness'', coalesce (opt_chain (map_of data ''romance'') ''flirtatiousness'') (map_of data ''flirtatiousness'')),
      (''jealousy'', coalesce (opt_chain (map_of data ''romance'') ''jealousy'') (map_of data ''jealousy'')),
      (''commitment'', coalesce (opt_chain (map_of data ''romance'') ''commitment'') (map_of data ''commitment'')),
      (''emotionalExpression'', coalesce (opt_chain (map_of data ''romance'') ''emotionalExpression'') (map_of data ''emotionalExpression'')),
      (''playfulness'', coalesce (opt_chain (map_of data ''romance'') ''playfulness'') (map_of data ''playfulness'')),
      (''attachmentStyle'', map_of data ''attachmentStyle''),
      (''loveLanguage'', map_of data ''loveLanguage'')]"

definition bulk_agent_create :: "obj \<Rightarrow> literal" where
  "bulk_agent_create data = (''id'', map_of data ''id'') # bulk_agent_update data"

text \<open>The properties of an element of the array: those of an object; a string, a number,
  a boolean or an array has none of the names read. Reading a property of null throws.\<close>

fun props :: "val \<Rightarrow> obj" where
  "props (VObj ps) = ps"
| "props _ = []"

text \<open>The loop over the array. \<open>clock k\<close> is the time of the \<open>k\<close>-th upsert. The first
  failure leaves the loop; the upserts before it stay.\<close>

fun bulk_upsert ::
  "env \<Rightarrow> (nat \<Rightarrow> int) \<Rightarrow> val list \<Rightarrow> obj list \<Rightarrow> world \<Rightarrow> (failure + obj list) \<times> world" where
  "bulk_upsert env clock [] results w = (Inr results, w)"
| "bulk_upsert env clock (x # xs) results w =
     (if x = VNull then (Inl TypeError, w)
      else
        let data = props x
        in case upsert_agent env (clock (length results)) (map_of data ''id'')
                  (bulk_agent_update data) (bulk_agent_create data) w of
             Inl e \<Rightarrow> (Inl e, w)
           | Inr (agent, w') \<Rightarrow> bulk_upsert env clock xs (results @ [agent]) w')"

definition post_agents_bulk ::
  "env \<Rightarrow> (nat \<Rightarrow> int) \<Rightarrow> obj \<Rightarrow> world \<Rightarrow> response \<times> world" where
  "post_agents_bulk env clock body w =
     (case map_of body ''agents'' of
        Some (VArr elems) \<Rightarrow>
          (case bulk_upsert env clock elems [] w of
             (Inr results, w') \<Rightarrow>
               (Response 200 (VObj [(''success'', VBool True),
                                    (''count'', VNum (int (length results))),
                                    (''agents'', VArr (map VObj results))]), w')
           | (Inl e, w') \<Rightarrow> (Response 500 (error_body ''Failed to bulk sync agents''), w'))
      | _ \<Rightarrow> (Response 400 (error_body ''agents must be an array''), w))"

section \<open>Relationships\<close>

text \<open>\<^verbatim>\<open>include: { agent1: true, agent2: true }\<close>.\<close>

definition with_agents :: "world \<Rightarrow> obj \<Rightarrow> obj" where
  "with_agents w r =
     assign r [(''agent1'', load id (agents w) (map_of r ''agent1Id'')),
               (''agent2'', load id (agents w) (map_of r ''agent2Id''))]"





text \<open>
  \<^verbatim>\<open>prisma.relationship.update({ where: { id }, data })\<close>. Modelled from the spec: the
  updated timestamp is assigned on the write.
\<close>

definition update_relationship ::
  "env \<Rightarrow> int \<Rightarrow> string \<Rightarrow> obj \<Rightarrow> world \<Rightarrow> failure + (obj \<times> world)" where
  "update_relationship env now i data w =
     (if \<not> accepts_update env ''relationship'' data then Inl Validation
      else (case find_by_id i (relationships w) of
              None \<Rightarrow> Inl P2025
            | Some r \<Rightarrow>
                let r' = assign (assign r [(''updatedAt'', VDate now)]) data
                in Inr (r', w\<lparr>relationships :=
                              map (\<lambda>x. if has_id i x then r' else x) (relationships w)\<rparr>)))"

subsection \<open>GET /api/relationships\<close>

definition get_relationships :: "world \<Rightarrow> response" where
  "get_relationships w =
     Response 200 (VArr (map (\<lambda>r. VObj (with_agents w r))
       (order_desc (\<lambda>r. time_of (map_of r ''updatedAt''))
          (filter (column_in ''status'' [VStr ''talking'', VStr ''coupled'']) (relationships w)))))"

subsection \<open>POST /api/relationships\<close>



subsection \<open>PUT /api/relationships/:id\<close>

text \<open>\<^verbatim>\<open>new Date(endedAt)\<close> when the body has the property; the client's check of the
  update refuses an invalid date.\<close>

definition ended_at :: "env \<Rightarrow> val option \<Rightarrow> failure + val option" where
  "ended_at env endedAt =
     (case endedAt of
        None \<Rightarrow> Inr None
      | Some v \<Rightarrow> (case date_parse env v of None \<Rightarrow> Inl Validation | Some t \<Rightarrow> Inr (Some (VDate t))))"

definition put_relationship :: "env \<Rightarrow> int \<Rightarrow> string \<Rightarrow> obj \<Rightarrow> world \<Rightarrow> response \<times> world" where
  "put_relationship env now i body w =
     (let status = map_of body ''status''; healthScore = map_of body ''healthScore'';
          endedAt = map_of body ''endedAt''
      in case ended_at env endedAt of
           Inl e \<Rightarrow> (Response 500 (error_body ''Failed to update relationship''), w)
         | Inr ended \<Rightarrow>
             (case update_relationship env now i
                     (defined [(''status'', status), (''healthScore'', healthScore),
                               (''endedAt'', ended)]) w of
                Inr (r, w') \<Rightarrow>
                  let relationship = VObj (with_agents w' r)
                  in (Response 200 relationship,
                      w'\<lparr>emitted := emitted w' @ [(''/villa-feed'', ''relationship-update'', relationship)]\<rparr>)
              | Inl e \<Rightarrow> (Response 500 (error_body ''Failed to update relationship''), w)))"

section \<open>Messages\<close>

text \<open>
  \<^verbatim>\<open>prisma.message.create({ data })\<close>: the conversation and the two agents must exist.
  Modelled from the spec: the id and the created timestamp are assigned on the write.
\<close>

definition create_message ::
  "env \<Rightarrow> int \<Rightarrow> literal \<Rightarrow> world \<Rightarrow> failure + (obj \<times> world)" where
  "create_message env now data w =
     (let d = defined data
      in if \<not> accepts_create env ''message'' d then Inl Validation
         else if \<not> (is_ref (conversations w) (map_of d ''conversationId'')
                    \<and> is_ref (agents w) (map_of d ''fromId'')
                    \<and> is_ref (agents w) (map_of d ''toId'')) then Inl P2003
         else
           let m = assign (assign (defaults env ''message'')
                             [(''id'', VStr (fresh_id (messages w))),
                              (''createdAt'', VDate now)]) d
           in Inr (m, w\<lparr>messages := messages w @ [m]\<rparr>))"

text \<open>\<^verbatim>\<open>prisma.conversation.update({ where: { id }, data })\<close>.\<close>

definition update_conversation ::
  "env \<Rightarrow> val option \<Rightarrow> literal \<Rightarrow> world \<Rightarrow> failure + (obj \<times> world)" where
  "update_conversation env where_id data w =
     (case where_id of
        Some (VStr i) \<Rightarrow>
          if \<not> accepts_update env ''conversation'' (defined data) then Inl Validation
          else (case find_by_id i (conversations w) of
                  None \<Rightarrow> Inl P2025
                | Some c \<Rightarrow>
                    let c' = assign c (defined data)
                    in Inr (c', w\<lparr>conversations :=
                                  map (\<lambda>x. if has_id i x then c' else x) (conversations w)\<rparr>))
      | _ \<Rightarrow> Inl Validation)"

subsection \<open>POST /api/messages\<close>

text \<open>\<open>created\<close> is the clock when the message is created, \<open>now\<close> the clock read by
  \<^verbatim>\<open>new Date()\<close> after that call has returned.\<close>

definition post_message :: "env \<Rightarrow> int \<Rightarrow> int \<Rightarrow> obj \<Rightarrow> world \<Rightarrow> response \<times> world" where
  "post_message env created now body w =
     (let conversationId = map_of body ''conversationId''; fromId = map_of body ''fromId'';
          toId = map_of body ''toId''; content = map_of body ''content'';
          sentiment = map_of body ''sentiment''
      in case create_message env created
                [(''conversationId'', conversationId),
                 (''fromId'', fromId),
                 (''toId'', toId),
                 (''content'', content),
                 (''sentiment'', js_or sentiment (Some VNull))] w of
           Inl e \<Rightarrow> (Response 500 (error_body ''Failed to create message''), w)
         | Inr (m, w1) \<Rightarrow>
             let message = assign m [(''from'', load id (agents w1) (map_of m ''fromId'')),
                                     (''to'', load id (agents w1) (map_of m ''toId''))]
             in (case update_conversation env conversationId
                        [(''lastMessageAt'', Some (VDate now))] w1 of
                   Inl e \<Rightarrow> (Response 500 (error_body ''Failed to create message''), w1)
                 | Inr (c, w2) \<Rightarrow>
                     (Response 200 (VObj message),
                      w2\<lparr>emitted := emitted w2 @
                           [(''/villa-feed'', ''new-message'',
                             VObj (defined [(''type'', Some (VStr ''message'')),
                                            (''data'', Some (VObj message)),
                                            (''timestamp'', map_of message ''createdAt'')]))]\<rparr>)))"

section \<open>The feed and the highlights\<close>

text \<open>The relations the two feed queries and the highlights query include.\<close>

definition event_include :: "world \<Rightarrow> obj \<Rightarrow> obj" where
  "event_include w e =
     assign e [(''relationship'', load (with_agents w) (relationships w) (map_of e ''relationshipId''))]"

definition message_include :: "world \<Rightarrow> obj \<Rightarrow> obj" where
  "message_include w m =
     assign m
       [(''from'', load id (agents w) (map_of m ''fromId'')),
        (''to'', load id (agents w) (map_of m ''toId'')),
        (''conversation'',
           load (\<lambda>c. assign c [(''relationship'', load id (relationships w) (map_of c ''relationshipId''))])
             (conversations w) (map_of m ''conversationId''))]"

text \<open>\<^verbatim>\<open>{ type: tag, data: x, timestamp: x.createdAt }\<close>.\<close>

definition feed_item :: "string \<Rightarrow> obj \<Rightarrow> obj" where
  "feed_item tag x =
     defined [(''type'', Some (VStr tag)), (''data'', Some (VObj x)),
              (''timestamp'', map_of x ''createdAt'')]"

subsection \<open>GET /api/villa-feed\<close>

text \<open>\<^verbatim>\<open>parseInt(req.query.limit) || 50\<close>; the argument is what \<^verbatim>\<open>parseInt\<close> returns,
  an integer of any size, \<open>None\<close> being \<^verbatim>\<open>NaN\<close>.\<close>

definition feed_limit :: "int option \<Rightarrow> int" where
  "feed_limit parsed = (case parsed of Some n \<Rightarrow> if n \<noteq> 0 then n else 50 | None \<Rightarrow> 50)"

text \<open>
  \<^verbatim>\<open>findMany({ orderBy, take: limit })\<close> on the ordered rows. The client takes a 64-bit
  integer: with a \<^verbatim>\<open>take\<close> outside that range the call throws, and the handler's
  \<^verbatim>\<open>catch\<close> answers with status 500.
\<close>

definition take_in_range :: "int \<Rightarrow> bool" where
  "take_in_range n = (- (2 ^ 63) \<le> n \<and> n < 2 ^ 63)"

definition find_many_take :: "int \<Rightarrow> obj list \<Rightarrow> failure + obj list" where
  "find_many_take n ordered =
     (if take_in_range n then Inr (prisma_take n ordered) else Inl Validation)"

text \<open>The merged feed before it is cut: each row tagged, the two lists in one, sorted.
  \<^verbatim>\<open>sort\<close> is stable, the comparator puts the later timestamp first.\<close>

definition merged_feed :: "obj list \<Rightarrow> obj list \<Rightarrow> obj list" where
  "merged_feed public_events recentMessages =
     sort_key (\<lambda>x. - time_of (map_of x ''timestamp''))
       (map (feed_item ''event'') public_events @ map (feed_item ''message'') recentMessages)"

definition get_villa_feed :: "int option \<Rightarrow> world \<Rightarrow> response" where
  "get_villa_feed parsed w =
     (let limit = feed_limit parsed
      in case (find_many_take limit
                 (order_desc (\<lambda>e. time_of (map_of e ''createdAt''))
                    (filter (\<lambda>e. map_of e ''isPublic'' = Some (VBool True)) (events w))),
               find_many_take limit
                 (order_desc (\<lambda>m. time_of (map_of m ''createdAt'')) (messages w))) of
           (Inr public_events, Inr recentMessages) \<Rightarrow>
             Response 200 (VArr (map VObj (slice0 limit
               (merged_feed (map (event_include w) public_events)
                            (map (message_include w) recentMessages)))))
         | _ \<Rightarrow> Response 500 (error_body ''Failed to fetch villa feed''))"

subsection \<open>GET /api/highlights\<close>

definition highlight :: "obj \<Rightarrow> bool" where
  "highlight e = (map_of e ''isFeatured'' = Some (VBool True) \<or> gte (map_of e ''dramaScore'') 75)"

definition get_highlights :: "world \<Rightarrow> response" where
  "get_highlights w =
     Response 200 (VArr (map (\<lambda>e. VObj (event_include w e))
       (prisma_take 20 (order_desc (\<lambda>e. num_of (map_of e ''dramaScore''))
          (filter highlight (events w))))))"

section \<open>The waitlist\<close>

text \<open>
  \<^verbatim>\<open>prisma.waitlistEntry.create({ data })\<close>: the email is unique. Modelled from the spec:
  the id and the creation timestamp are assigned on the write.
\<close>

definition create_waitlist_entry ::
  "env \<Rightarrow> int \<Rightarrow> literal \<Rightarrow> world \<Rightarrow> failure + (obj \<times> world)" where
  "create_waitlist_entry env now data w =
     (let d = defined data
      in if \<not> accepts_create env ''waitlistEntry'' d then Inl Validation
         else if list_ex (\<lambda>r. map_of r ''email'' = map_of d ''email'') (waitlist w) then Inl P2002
         else
           let e = assign (assign (defaults env ''waitlistEntry'')
                             [(''id'', VStr (fresh_id (waitlist w))),
                              (''createdAt'', VDate now)]) d
           in Inr (e, w\<lparr>waitlist := waitlist w @ [e]\<rparr>))"

text \<open>\<^verbatim>\<open>email.includes("@")\<close>: a string's and an array's method; any other value has
  no such method and the call throws.\<close>

fun includes_at :: "val \<Rightarrow> failure + bool" where
  "includes_at (VStr s) = Inr (CHR ''@'' \<in> set s)"
| "includes_at (VArr xs) = Inr (VStr ''@'' \<in> set xs)"
| "includes_at _ = Inl TypeError"

subsection \<open>POST /api/waitlist\<close>

definition post_waitlist :: "env \<Rightarrow> int \<Rightarrow> obj \<Rightarrow> world \<Rightarrow> response \<times> world" where
  "post_waitlist env now body w =
     (case map_of body ''email'' of
        None \<Rightarrow> (Response 400 (error_body ''Invalid email''), w)
      | Some email \<Rightarrow>
          if \<not> truthy (Some email) then (Response 400 (error_body ''Invalid email''), w)
          else (case includes_at email of
                  Inl e \<Rightarrow> (Response 500 (error_body ''Failed to add to waitlist''), w)
                | Inr False \<Rightarrow> (Response 400 (error_body ''Invalid email''), w)
                | Inr True \<Rightarrow>
                    (case create_waitlist_entry env now [(''email'', Some email)] w of
                       Inr (entry, w') \<Rightarrow>
                         (Response 200 (VObj (defined [(''success'', Some (VBool True)),
                                                       (''id'', map_of entry ''id'')])), w')
                     | Inl P2002 \<Rightarrow> (Response 400 (error_body ''Email already registered''), w)
                     | Inl e \<Rightarrow> (Response 500 (error_body ''Failed to add to waitlist''), w))))"

section \<open>Example data\<close>

text \<open>A schema that accepts every write, with a default status for agents and the
  constraint over the pair in either order; a date parser that takes a number as the
  time value and knows one ISO string.\<close>

definition example_env :: env where
  "example_env =
     \<lparr>accepts_create = (\<lambda>m d. True),
      accepts_update = (\<lambda>m d. True),
      defaults = (\<lambda>m. if m = ''agent'' then [(''status'', VStr ''single''), (''currentPartner'', VNull)]
                        else []),
      pair_unique = Either_order,
      date_parse = (\<lambda>v. case v of
                           VNum n \<Rightarrow> Some n
                         | VStr s \<Rightarrow> if s = ''2024-01-01T00:00:00.000Z'' then Some 1704067200000 else None
                         | _ \<Rightarrow> None)\<rparr>"

definition example_world :: world where
  "example_world =
     \<lparr>agents =
        [[(''id'', VStr ''a1''), (''name'', VStr ''Ann''), (''status'', VStr ''coupled''),
          (''currentPartner'', VStr ''a2''), (''createdAt'', VDate 10)],
         [(''id'', VStr ''a2''), (''name'', VStr ''Bob''), (''status'', VStr ''coupled''),
          (''currentPartner'', VStr ''a1''), (''createdAt'', VDate 11)],
         [(''id'', VStr ''a3''), (''name'', VStr ''Cyd''), (''status'', VStr ''single''),
          (''currentPartner'', VNull), (''createdAt'', VDate 12)]],
      relationships =
        [[(''id'', VStr ''r1''), (''agent1Id'', VStr ''a1''), (''agent2Id'', VStr ''a2''),
          (''compatibilityScore'', VNum 80), (''status'', VStr ''coupled''),
          (''healthScore'', VNum 90), (''createdAt'', VDate 20), (''updatedAt'', VDate 30),
          (''endedAt'', VNull)],
         [(''id'', VStr ''r2''), (''agent1Id'', VStr ''a2''), (''agent2Id'', VStr ''a3''),
          (''compatibilityScore'', VNum 40), (''status'', VStr ''ended''),
          (''healthScore'', VNum 10), (''createdAt'', VDate 21), (''updatedAt'', VDate 40),
          (''endedAt'', VDate 40)]],
      conversations =
        [[(''id'', VStr ''c1''), (''relationshipId'', VStr ''r1''), (''lastMessageAt'', VDate 50)]],
      messages =
        [[(''id'', VStr ''m1''), (''conversationId'', VStr ''c1''), (''fromId'', VStr ''a1''),
          (''toId'', VStr ''a2''), (''content'', VStr ''hi''), (''sentiment'', VNull),
          (''createdAt'', VDate 50)]],
      events =
        [[(''id'', VStr ''e1''), (''description'', VStr ''first date''), (''dramaScore'', VNum 50),
          (''isPublic'', VBool True), (''isFeatured'', VBool False), (''relationshipId'', VStr ''r1''),
          (''createdAt'', VDate 45)],
         [(''id'', VStr ''e2''), (''description'', VStr ''break-up''), (''dramaScore'', VNum 90),
          (''isPublic'', VBool True), (''isFeatured'', VBool False), (''relationshipId'', VStr ''r2''),
          (''createdAt'', VDate 60)],
         [(''id'', VStr ''e3''), (''description'', VStr ''secret''), (''dramaScore'', VNum 60),
          (''isPublic'', VBool False), (''isFeatured'', VBool True), (''relationshipId'', VNull),
          (''createdAt'', VDate 70)]],
      waitlist = [],
      emitted = []\<rparr>"

text \<open>A payload with a flat and a nested openness, a nested neuroticism only, and neither a
  name nor a status.\<close>

definition example_agent :: obj where
  "example_agent =
     [(''id'', VStr ''a4''), (''openness'', VNum 7),
      (''bigFive'', VObj [(''openness'', VNum 3), (''neuroticism'', VNum 4)])]"

text \<open>A payload for an agent the example store holds, coupled; and a clock for the
  upserts of a bulk request.\<close>

definition example_known_agent :: obj where
  "example_known_agent = [(''id'', VStr ''a1''), (''name'', VStr ''Ann'')]"

definition example_clock :: "nat \<Rightarrow> int" where
  "example_clock k = 100 + int k"

text \<open>A bulk body: the stored agent \<^verbatim>\<open>a1\<close> without a name, and the new agent above.\<close>

definition example_bulk :: obj where
  "example_bulk = [(''agents'', VArr [VObj [(''id'', VStr ''a1'')], VObj example_agent])]"



text \<open>A body that ends a relationship and says nothing of its health score.\<close>

definition example_ending :: obj where
  "example_ending = [(''status'', VStr ''ended''), (''endedAt'', VStr ''2024-01-01T00:00:00.000Z'')]"

text \<open>The example store with a third relationship, talking, updated after the first.\<close>

definition example_talking :: obj where
  "example_talking =
     [(''id'', VStr ''r3''), (''agent1Id'', VStr ''a3''), (''agent2Id'', VStr ''a1''),
      (''compatibilityScore'', VNum 55), (''status'', VStr ''talking''),
      (''healthScore'', VNum 70), (''createdAt'', VDate 31), (''updatedAt'', VDate 35),
      (''endedAt'', VNull)]"

definition example_world2 :: world where
  "example_world2 = example_world\<lparr>relationships := relationships example_world @ [example_talking]\<rparr>"


text \<open>A message in the conversation of the example store.\<close>

definition example_message :: obj where
  "example_message =
     [(''conversationId'', VStr ''c1''), (''fromId'', VStr ''a2''), (''toId'', VStr ''a1''),
      (''content'', VStr ''hello'')]"


section \<open>Properties\<close>

subsection \<open>Rows and literals\<close>

lemma map_of_assign:
  "map_of (assign row cols) k = (case map_of cols k of Some v \<Rightarrow> Some v | None \<Rightarrow> map_of row k)"
  by (simp add: assign_def merge_conv' map_add_def)

lemma map_of_defined:
  "distinct (map fst ps) \<Longrightarrow>
   map_of (defined ps) k = (case map_of ps k of Some (Some v) \<Rightarrow> Some v | _ \<Rightarrow> None)"
proof (induction ps rule: defined.induct)
  case 1
  show ?case by simp
next
  case (2 k' ps)
  then show ?case
    by (auto simp: map_of_eq_None_iff image_iff split: option.splits)
next
  case (3 k' v ps)
  then show ?case by auto
qed




subsection \<open>POST /api/agents, then GET /api/agents/:id\<close>


lemma find_by_id_has_id: "find_by_id i rows = Some r \<Longrightarrow> has_id i r"
  unfolding find_by_id_def by (induction rows) (auto split: if_splits)

lemma find_by_id_replace:
  "has_id i r' \<Longrightarrow> find_by_id i rows = Some r \<Longrightarrow>
   find_by_id i (map (\<lambda>x. if has_id i x then r' else x) rows) = Some r'"
  unfolding find_by_id_def by (induction rows) (auto split: if_splits)

lemma find_by_id_append:
  "find_by_id i rows = None \<Longrightarrow> has_id i r' \<Longrightarrow> find_by_id i (rows @ [r']) = Some r'"
  unfolding find_by_id_def by (induction rows) (auto split: if_splits)








text \<open>What an upsert leaves in the table: the row it returns, under the id, holding every
  value the blocks wrote.\<close>

lemma upsert_agent_stored:
  assumes up: "upsert_agent env now wid U ((''id'', wid) # U) w = Inr (a, w')"
    and dist: "distinct (map fst U)"
    and noid: "map_of U ''id'' = None"
  shows "\<exists>i. wid = Some (VStr i) \<and> find_by_id i (agents w') = Some a
           \<and> has_id i a
           \<and> (\<forall>k v. map_of U k = Some (Some v) \<longrightarrow> map_of a k = Some v)"
proof -
  from up obtain i where wid: "wid = Some (VStr i)"
    by (auto simp: upsert_agent_def split: option.splits val.splits)
  have defU: "\<And>k. map_of (defined U) k = (case map_of U k of Some (Some v) \<Rightarrow> Some v | _ \<Rightarrow> None)"
    using dist by (rule map_of_defined)
  show ?thesis
  proof (cases "find_by_id i (agents w)")
    case None
    with up wid have a: "a = assign (assign (defaults env ''agent'') [(''createdAt'', VDate now)])
                               ((''id'', VStr i) # defined U)"
      and w': "agents w' = agents w @ [a]"
      by (auto simp: upsert_agent_def Let_def split: if_splits)
    have hid: "has_id i a"
      by (simp add: a has_id_def map_of_assign)
    have "\<forall>k v. map_of U k = Some (Some v) \<longrightarrow> map_of a k = Some v"
      using noid by (auto simp: a map_of_assign defU)
    with None hid wid w' show ?thesis
      by (simp add: find_by_id_append)
  next
    case (Some r)
    with up wid have a: "a = assign r (defined U)"
      and w': "agents w' = map (\<lambda>x. if has_id i x then a else x) (agents w)"
      by (auto simp: upsert_agent_def Let_def split: if_splits)
    have "has_id i r" using Some by (rule find_by_id_has_id)
    then have hid: "has_id i a"
      using noid by (simp add: a has_id_def map_of_assign defU)
    have "\<forall>k v. map_of U k = Some (Some v) \<longrightarrow> map_of a k = Some v"
      by (auto simp: a map_of_assign defU)
    with Some hid wid w' show ?thesis
      by (simp add: find_by_id_replace)
  qed
qed

text \<open>A payload with a string id whose two blocks the schema accepts is upserted.\<close>

lemma post_agent_succeeds:
  assumes "map_of data ''id'' = Some (VStr i)"
    and "accepts_update env ''agent'' (defined (post_agent_update data))"
    and "accepts_create env ''agent'' (defined (post_agent_create data))"
  shows "\<exists>out w'. post_agent env now data w = (Response 200 out, w')"
  using assms
  by (cases "find_by_id i (agents w)") (simp_all add: post_agent_def upsert_agent_def Let_def)



subsection \<open>PUT /api/agents/:id/status\<close>

lemma update_agent_stored:
  assumes up: "update_agent env i data w = Inr (a, w')"
    and dist: "distinct (map fst data)"
    and noid: "map_of data ''id'' = None"
  shows "\<exists>old. find_by_id i (agents w) = Some old \<and> a = assign old (defined data)
           \<and> find_by_id i (agents w') = Some a"
proof -
  from up obtain old where old: "find_by_id i (agents w) = Some old"
    and a: "a = assign old (defined data)"
    and w': "agents w' = map (\<lambda>x. if has_id i x then a else x) (agents w)"
    by (auto simp: update_agent_def Let_def split: if_splits option.splits)
  have "has_id i old" using old by (rule find_by_id_has_id)
  then have "has_id i a"
    using noid by (simp add: a has_id_def map_of_assign map_of_defined [OF dist])
  with old a w' show ?thesis by (simp add: find_by_id_replace)
qed

text \<open>
  Claim C10. For every body whose \<^verbatim>\<open>currentPartner\<close> is absent or falsy, a
  PUT /api/agents/:id/status that succeeds stores null as the agent's current partner,
  whatever partner the agent had, sets the last-active time to the current time, and sets
  the status to the supplied value (an absent status leaves the stored one).
\<close>

theorem put_agent_status_clears_partner:
  assumes put: "put_agent_status env now i body w = (Response 200 out, w')"
    and falsy: "\<not> truthy (map_of body ''currentPartner'')"
  shows "\<exists>old a. find_by_id i (agents w) = Some old \<and> out = VObj a
           \<and> find_by_id i (agents w') = Some a
           \<and> map_of a ''currentPartner'' = Some VNull
           \<and> map_of a ''lastActive'' = Some (VDate now)
           \<and> map_of a ''status''
               = (case map_of body ''status'' of Some s \<Rightarrow> Some s | None \<Rightarrow> map_of old ''status'')"
proof -
  let ?data = "[(''status'', map_of body ''status''),
                (''currentPartner'', js_or (map_of body ''currentPartner'') (Some VNull)),
                (''lastActive'', Some (VDate now))]"
  from put obtain a where up: "update_agent env i ?data w = Inr (a, w')" and out: "out = VObj a"
    by (auto simp: put_agent_status_def error_body_def Let_def split: sum.splits)
  have dist: "distinct (map fst ?data)" by simp
  have noid: "map_of ?data ''id'' = None" by simp
  from update_agent_stored [OF up dist noid] obtain old where
    old: "find_by_id i (agents w) = Some old" and a: "a = assign old (defined ?data)"
    and found: "find_by_id i (agents w') = Some a"
    by blast
  have look: "map_of a k = (case map_of ?data k of Some (Some v) \<Rightarrow> Some v | _ \<Rightarrow> map_of old k)" for k
    by (simp add: a map_of_assign map_of_defined [OF dist] split: option.splits)
  have partner: "map_of a ''currentPartner'' = Some VNull"
    using falsy look [of "''currentPartner''"] by (simp add: js_or_def)
  have active: "map_of a ''lastActive'' = Some (VDate now)"
    using look [of "''lastActive''"] by simp
  have status: "map_of a ''status''
      = (case map_of body ''status'' of Some s \<Rightarrow> Some s | None \<Rightarrow> map_of old ''status'')"
    using look [of "''status''"] by (simp split: option.splits)
  from old out found partner active status show ?thesis by blast
qed

theorem put_agent_status_clears_partner_witness:
  "\<exists>old out w' a.
      find_by_id ''a1'' (agents example_world) = Some old
    \<and> map_of old ''currentPartner'' = Some (VStr ''a2'')
    \<and> put_agent_status example_env 99 ''a1'' [(''status'', VStr ''single'')] example_world
        = (Response 200 out, w')
    \<and> \<not> truthy (map_of [(''status'', VStr ''single'')] ''currentPartner'')
    \<and> find_by_id ''a1'' (agents w') = Some a
    \<and> map_of a ''currentPartner'' = Some VNull
    \<and> map_of a ''lastActive'' = Some (VDate 99)
    \<and> map_of a ''status'' = Some (VStr ''single'')"
proof -
  let ?body = "[(''status'', VStr ''single'')]"
  have old: "find_by_id ''a1'' (agents example_world) = Some (hd (agents example_world))"
    "map_of (hd (agents example_world)) ''currentPartner'' = Some (VStr ''a2'')"
    by (simp_all add: example_world_def find_by_id_def has_id_def)
  obtain out w' where
    h: "put_agent_status example_env 99 ''a1'' ?body example_world = (Response 200 out, w')"
    by (simp add: put_agent_status_def update_agent_def example_env_def example_world_def
          find_by_id_def has_id_def Let_def)
  have f: "\<not> truthy (map_of ?body ''currentPartner'')" by simp
  from put_agent_status_clears_partner [OF h f] old f h show ?thesis
    by auto
qed

subsection \<open>POST /api/agents/bulk\<close>

lemma bulk_agent_update_distinct: "distinct (map fst (bulk_agent_update data))"
  by (simp add: bulk_agent_update_def)

lemma bulk_agent_update_no_id: "map_of (bulk_agent_update data) ''id'' = None"
  by (simp add: bulk_agent_update_def)

lemma bulk_agent_update_no_status: "map_of (bulk_agent_update data) ''status'' = None"
  by (simp add: bulk_agent_update_def)

lemma bulk_agent_update_name:
  "map_of (bulk_agent_update data) ''name'' = Some (js_or (map_of data ''name'') (Some (VStr '''')))"
  by (simp add: bulk_agent_update_def)

lemma bulk_agent_update_big_five:
  "\<forall>t\<in>set big_five. map_of (bulk_agent_update data) t
     = Some (coalesce (opt_chain (map_of data ''bigFive'') t) (map_of data t))"
  unfolding big_five_def by (simp add: bulk_agent_update_def)

lemma bulk_agent_update_romance:
  "\<forall>t\<in>set romance. map_of (bulk_agent_update data) t
     = Some (coalesce (opt_chain (map_of data ''romance'') t) (map_of data t))"
  unfolding romance_def by (simp add: bulk_agent_update_def)

text \<open>A column neither block writes keeps the value of the row that was there, and
  has the schema's default in a row that is created.\<close>

lemma upsert_agent_unwritten:
  assumes up: "upsert_agent env now wid U ((''id'', wid) # U) w = Inr (a, w')"
    and dist: "distinct (map fst U)"
    and c: "map_of U c = None" "c \<noteq> ''id''" "c \<noteq> ''createdAt''"
  shows "\<exists>i. wid = Some (VStr i)
           \<and> map_of a c = (case find_by_id i (agents w) of
                              Some old \<Rightarrow> map_of old c
                            | None \<Rightarrow> map_of (defaults env ''agent'') c)"
proof -
  from up obtain i where wid: "wid = Some (VStr i)"
    by (auto simp: upsert_agent_def split: option.splits val.splits)
  have defU: "map_of (defined U) c = None"
    using c by (simp add: map_of_defined [OF dist])
  show ?thesis
  proof (cases "find_by_id i (agents w)")
    case None
    with up wid have "a = assign (assign (defaults env ''agent'') [(''createdAt'', VDate now)])
                               ((''id'', VStr i) # defined U)"
      by (auto simp: upsert_agent_def Let_def split: if_splits)
    with None wid c defU show ?thesis by (simp add: map_of_assign)
  next
    case (Some r)
    with up wid have "a = assign r (defined U)"
      by (auto simp: upsert_agent_def Let_def split: if_splits)
    with Some wid defU show ?thesis by (simp add: map_of_assign)
  qed
qed

lemma bulk_upsert_append:
  "bulk_upsert env clock (xs @ ys) acc w =
     (case bulk_upsert env clock xs acc w of
        (Inl e, w1) \<Rightarrow> (Inl e, w1)
      | (Inr r1, w1) \<Rightarrow> bulk_upsert env clock ys r1 w1)"
  by (induction xs arbitrary: acc w) (auto simp: Let_def split: sum.splits prod.splits)

lemma bulk_upsert_length:
  "bulk_upsert env clock xs acc w = (Inr r, w') \<Longrightarrow> \<exists>rs. r = acc @ rs \<and> length rs = length xs"
proof (induction xs arbitrary: acc w)
  case Nil
  then show ?case by simp
next
  case (Cons x xs)
  from Cons.prems obtain agent w1 where
    rest: "bulk_upsert env clock xs (acc @ [agent]) w1 = (Inr r, w')"
    by (auto simp: Let_def split: if_splits sum.splits prod.splits)
  from Cons.IH [OF rest] obtain rs where "r = (acc @ [agent]) @ rs" "length rs = length xs"
    by blast
  then have "r = acc @ (agent # rs) \<and> length (agent # rs) = length (x # xs)" by simp
  then show ?case by blast
qed

text \<open>The \<open>k\<close>-th turn of the loop: the elements before it were upserted, and the
  \<open>k\<close>-th record of the result is what the upsert of the \<open>k\<close>-th element returned.\<close>

lemma bulk_upsert_step:
  assumes run: "bulk_upsert env clock xs [] w = (Inr rs, w')" and k: "k < length xs"
  shows "\<exists>w1 w2. bulk_upsert env clock (take k xs) [] w = (Inr (take k rs), w1)
           \<and> xs ! k \<noteq> VNull
           \<and> upsert_agent env (clock k) (map_of (props (xs ! k)) ''id'')
                (bulk_agent_update (props (xs ! k))) (bulk_agent_create (props (xs ! k))) w1
              = Inr (rs ! k, w2)"
proof -
  have split: "xs = take k xs @ (xs ! k # drop (Suc k) xs)"
    using k by (simp add: id_take_nth_drop [symmetric])
  from run have "bulk_upsert env clock (take k xs @ (xs ! k # drop (Suc k) xs)) [] w = (Inr rs, w')"
    using split by simp
  then obtain r1 w1 where
    pre: "bulk_upsert env clock (take k xs) [] w = (Inr r1, w1)"
    and rest: "bulk_upsert env clock (xs ! k # drop (Suc k) xs) r1 w1 = (Inr rs, w')"
    unfolding bulk_upsert_append by (auto split: sum.splits prod.splits)
  from bulk_upsert_length [OF pre] k have len: "length r1 = k" by auto
  from rest obtain agent w2 where
    nn: "xs ! k \<noteq> VNull"
    and up: "upsert_agent env (clock (length r1)) (map_of (props (xs ! k)) ''id'')
                (bulk_agent_update (props (xs ! k))) (bulk_agent_create (props (xs ! k))) w1
              = Inr (agent, w2)"
    and tail: "bulk_upsert env clock (drop (Suc k) xs) (r1 @ [agent]) w2 = (Inr rs, w')"
    by (auto simp: Let_def split: if_splits sum.splits prod.splits)
  from bulk_upsert_length [OF tail] obtain rs' where rs: "rs = (r1 @ [agent]) @ rs'" by blast
  have "take k rs = r1" "rs ! k = agent"
    using len by (simp_all add: rs nth_append)
  with pre nn up len show ?thesis by simp
qed

text \<open>
  Claim C2 fails as stated: the bulk handler's upsert has no status in either block, so
  it does not default the status as POST /api/agents does. For the payload
  \<^verbatim>\<open>{id: "a1", name: "Ann"}\<close> of an agent stored as coupled, POST /api/agents stores
  the status \<^verbatim>\<open>"single"\<close>, and POST /api/agents/bulk leaves \<^verbatim>\<open>"coupled"\<close>.
\<close>

theorem post_agents_bulk_status_counterexample:
  "fst (post_agent example_env 5 example_known_agent example_world)
     = Response 200 (VObj [(''id'', VStr ''a1''), (''name'', VStr ''Ann''),
         (''status'', VStr ''single''), (''currentPartner'', VStr ''a2''), (''createdAt'', VDate 10)])
   \<and> fst (post_agents_bulk example_env example_clock
            [(''agents'', VArr [VObj example_known_agent])] example_world)
     = Response 200 (VObj [(''success'', VBool True), (''count'', VNum 1),
         (''agents'', VArr [VObj [(''id'', VStr ''a1''), (''name'', VStr ''Ann''),
            (''status'', VStr ''coupled''), (''currentPartner'', VStr ''a2''),
            (''createdAt'', VDate 10)]])])"
  by (simp add: post_agent_def post_agent_create_def post_agent_update_def
        post_agents_bulk_def bulk_agent_create_def bulk_agent_update_def upsert_agent_def
        example_env_def example_world_def example_known_agent_def find_by_id_def has_id_def
        Let_def assign_def js_or_def)

text \<open>
  Claim C2, amended. A body whose \<^verbatim>\<open>agents\<close> is not an array is answered with status
  400 and changes nothing. For every array, a POST /api/agents/bulk that succeeds answers
  with \<^verbatim>\<open>success\<close>, the count and the list of the records, one per element and in
  order, the \<open>k\<close>-th being what the upsert of the \<open>k\<close>-th element by its id returned
  in the store the elements before it left: it holds every value the handler wrote, the
  name defaulted to the empty string as POST /api/agents does, each trait taken from the
  nested object when that has it and is not null and from the flat property otherwise. The
  status is not written: the record has the status the agent had, or the schema's default
  when the agent is created.
\<close>

theorem post_agents_bulk_upserts:
  "((\<forall>xs. map_of body ''agents'' \<noteq> Some (VArr xs)) \<longrightarrow>
      post_agents_bulk env clock body w = (Response 400 (error_body ''agents must be an array''), w))
   \<and> (\<forall>out w'. post_agents_bulk env clock body w = (Response 200 out, w') \<longrightarrow>
        (\<exists>xs rs. map_of body ''agents'' = Some (VArr xs)
           \<and> bulk_upsert env clock xs [] w = (Inr rs, w')
           \<and> out = VObj [(''success'', VBool True), (''count'', VNum (int (length rs))),
                         (''agents'', VArr (map VObj rs))]
           \<and> length rs = length xs
           \<and> (\<forall>k<length xs. \<exists>i.
                 map_of (props (xs ! k)) ''id'' = Some (VStr i)
               \<and> map_of (rs ! k) ''id'' = Some (VStr i)
               \<and> find_by_id i (agents (snd (bulk_upsert env clock (take (Suc k) xs) [] w)))
                   = Some (rs ! k)
               \<and> (\<forall>c v. map_of (bulk_agent_update (props (xs ! k))) c = Some (Some v)
                     \<longrightarrow> map_of (rs ! k) c = Some v)
               \<and> map_of (rs ! k) ''name''
                   = (if truthy (map_of (props (xs ! k)) ''name'')
                      then map_of (props (xs ! k)) ''name'' else Some (VStr ''''))
               \<and> (\<forall>t\<in>set big_five. \<forall>v.
                     (opt_chain (map_of (props (xs ! k)) ''bigFive'') t = Some v \<and> v \<noteq> VNull
                        \<longrightarrow> map_of (rs ! k) t = Some v)
                   \<and> (opt_chain (map_of (props (xs ! k)) ''bigFive'') t \<in> {None, Some VNull}
                        \<and> map_of (props (xs ! k)) t = Some v \<longrightarrow> map_of (rs ! k) t = Some v))
               \<and> (\<forall>t\<in>set romance. \<forall>v.
                     (opt_chain (map_of (props (xs ! k)) ''romance'') t = Some v \<and> v \<noteq> VNull
                        \<longrightarrow> map_of (rs ! k) t = Some v)
                   \<and> (opt_chain (map_of (props (xs ! k)) ''romance'') t \<in> {None, Some VNull}
                        \<and> map_of (props (xs ! k)) t = Some v \<longrightarrow> map_of (rs ! k) t = Some v))
               \<and> map_of (rs ! k) ''status''
                   = (case find_by_id i (agents (snd (bulk_upsert env clock (take k xs) [] w))) of
                        Some old \<Rightarrow> map_of old ''status''
                      | None \<Rightarrow> map_of (defaults env ''agent'') ''status''))))"
proof (intro conjI impI allI)
  assume "\<forall>xs. map_of body ''agents'' \<noteq> Some (VArr xs)"
  then show "post_agents_bulk env clock body w
      = (Response 400 (error_body ''agents must be an array''), w)"
    by (auto simp: post_agents_bulk_def split: option.splits val.splits)
next
  fix out w'
  assume post: "post_agents_bulk env clock body w = (Response 200 out, w')"
  then obtain xs rs where arr: "map_of body ''agents'' = Some (VArr xs)"
    and run: "bulk_upsert env clock xs [] w = (Inr rs, w')"
    and out: "out = VObj [(''success'', VBool True), (''count'', VNum (int (length rs))),
                          (''agents'', VArr (map VObj rs))]"
    by (auto simp: post_agents_bulk_def error_body_def
          split: option.splits val.splits sum.splits prod.splits)
  from bulk_upsert_length [OF run] have len: "length rs = length xs" by simp
  have each: "\<exists>i.
        map_of (props (xs ! k)) ''id'' = Some (VStr i)
      \<and> map_of (rs ! k) ''id'' = Some (VStr i)
      \<and> find_by_id i (agents (snd (bulk_upsert env clock (take (Suc k) xs) [] w))) = Some (rs ! k)
      \<and> (\<forall>c v. map_of (bulk_agent_update (props (xs ! k))) c = Some (Some v)
            \<longrightarrow> map_of (rs ! k) c = Some v)
      \<and> map_of (rs ! k) ''name''
          = (if truthy (map_of (props (xs ! k)) ''name'')
             then map_of (props (xs ! k)) ''name'' else Some (VStr ''''))
      \<and> (\<forall>t\<in>set big_five. \<forall>v.
            (opt_chain (map_of (props (xs ! k)) ''bigFive'') t = Some v \<and> v \<noteq> VNull
               \<longrightarrow> map_of (rs ! k) t = Some v)
          \<and> (opt_chain (map_of (props (xs ! k)) ''bigFive'') t \<in> {None, Some VNull}
               \<and> map_of (props (xs ! k)) t = Some v \<longrightarrow> map_of (rs ! k) t = Some v))
      \<and> (\<forall>t\<in>set romance. \<forall>v.
            (opt_chain (map_of (props (xs ! k)) ''romance'') t = Some v \<and> v \<noteq> VNull
               \<longrightarrow> map_of (rs ! k) t = Some v)
          \<and> (opt_chain (map_of (props (xs ! k)) ''romance'') t \<in> {None, Some VNull}
               \<and> map_of (props (xs ! k)) t = Some v \<longrightarrow> map_of (rs ! k) t = Some v))
      \<and> map_of (rs ! k) ''status''
          = (case find_by_id i (agents (snd (bulk_upsert env clock (take k xs) [] w))) of
               Some old \<Rightarrow> map_of old ''status''
             | None \<Rightarrow> map_of (defaults env ''agent'') ''status'')"
    if k: "k < length xs" for k
  proof -
    let ?d = "props (xs ! k)"
    let ?U = "bulk_agent_update ?d"
    let ?a = "rs ! k"
    from bulk_upsert_step [OF run k] obtain w1 w2 where
      pre: "bulk_upsert env clock (take k xs) [] w = (Inr (take k rs), w1)"
      and nn: "xs ! k \<noteq> VNull"
      and up: "upsert_agent env (clock k) (map_of ?d ''id'') ?U ((''id'', map_of ?d ''id'') # ?U) w1
                 = Inr (?a, w2)"
      unfolding bulk_agent_create_def by blast
    have w1: "snd (bulk_upsert env clock (take k xs) [] w) = w1" by (simp add: pre)
    have "take (Suc k) xs = take k xs @ [xs ! k]"
      using k by (simp add: take_Suc_conv_app_nth)
    then have w2: "snd (bulk_upsert env clock (take (Suc k) xs) [] w) = w2"
      using pre nn up k len
      by (simp add: bulk_upsert_append bulk_agent_create_def Let_def)
    from upsert_agent_stored [OF up bulk_agent_update_distinct bulk_agent_update_no_id]
    obtain i where id: "map_of ?d ''id'' = Some (VStr i)"
      and found: "find_by_id i (agents w2) = Some ?a"
      and hid: "has_id i ?a"
      and wr: "\<And>c v. map_of ?U c = Some (Some v) \<Longrightarrow> map_of ?a c = Some v"
      by blast
    from upsert_agent_unwritten [OF up bulk_agent_update_distinct bulk_agent_update_no_status]
    have status: "map_of ?a ''status''
        = (case find_by_id i (agents w1) of
             Some old \<Rightarrow> map_of old ''status''
           | None \<Rightarrow> map_of (defaults env ''agent'') ''status'')"
      using id by simp
    have name: "map_of ?a ''name''
        = (if truthy (map_of ?d ''name'') then map_of ?d ''name'' else Some (VStr ''''))"
    proof (cases "js_or (map_of ?d ''name'') (Some (VStr ''''))")
      case None
      then show ?thesis by (auto simp: js_or_def split: if_splits)
    next
      case (Some v)
      then have "map_of ?a ''name'' = Some v"
        using wr [of "''name''" v] by (simp add: bulk_agent_update_name)
      with Some show ?thesis by (auto simp: js_or_def split: if_splits)
    qed
    have nested: "coalesce (Some v) b = Some v" if "v \<noteq> VNull" for v b
      using that by (cases v) simp_all
    have five: "\<forall>t\<in>set big_five. \<forall>v.
            (opt_chain (map_of ?d ''bigFive'') t = Some v \<and> v \<noteq> VNull \<longrightarrow> map_of ?a t = Some v)
          \<and> (opt_chain (map_of ?d ''bigFive'') t \<in> {None, Some VNull}
               \<and> map_of ?d t = Some v \<longrightarrow> map_of ?a t = Some v)"
    proof (intro ballI allI conjI impI)
      fix t v assume "t \<in> set big_five"
        and "opt_chain (map_of ?d ''bigFive'') t = Some v \<and> v \<noteq> VNull"
      then have "map_of ?U t = Some (Some v)"
        using bulk_agent_update_big_five [of ?d] by (simp add: nested)
      then show "map_of ?a t = Some v" by (rule wr)
    next
      fix t v assume "t \<in> set big_five"
        and "opt_chain (map_of ?d ''bigFive'') t \<in> {None, Some VNull} \<and> map_of ?d t = Some v"
      then have "map_of ?U t = Some (Some v)"
        using bulk_agent_update_big_five [of ?d] by auto
      then show "map_of ?a t = Some v" by (rule wr)
    qed
    have rom: "\<forall>t\<in>set romance. \<forall>v.
            (opt_chain (map_of ?d ''romance'') t = Some v \<and> v \<noteq> VNull \<longrightarrow> map_of ?a t = Some v)
          \<and> (opt_chain (map_of ?d ''romance'') t \<in> {None, Some VNull}
               \<and> map_of ?d t = Some v \<longrightarrow> map_of ?a t = Some v)"
    proof (intro ballI allI conjI impI)
      fix t v assume "t \<in> set romance"
        and "opt_chain (map_of ?d ''romance'') t = Some v \<and> v \<noteq> VNull"
      then have "map_of ?U t = Some (Some v)"
        using bulk_agent_update_romance [of ?d] by (simp add: nested)
      then show "map_of ?a t = Some v" by (rule wr)
    next
      fix t v assume "t \<in> set romance"
        and "opt_chain (map_of ?d ''romance'') t \<in> {None, Some VNull} \<and> map_of ?d t = Some v"
      then have "map_of ?U t = Some (Some v)"
        using bulk_agent_update_romance [of ?d] by auto
      then show "map_of ?a t = Some v" by (rule wr)
    qed
    from hid have idcol: "map_of ?a ''id'' = Some (VStr i)" by (simp add: has_id_def)
    from id idcol found wr name five rom status show ?thesis
      unfolding w1 w2 by blast
  qed
  from arr run out len each
  show "\<exists>xs rs. map_of body ''agents'' = Some (VArr xs)
           \<and> bulk_upsert env clock xs [] w = (Inr rs, w')
           \<and> out = VObj [(''success'', VBool True), (''count'', VNum (int (length rs))),
                         (''agents'', VArr (map VObj rs))]
           \<and> length rs = length xs
           \<and> (\<forall>k<length xs. \<exists>i.
                 map_of (props (xs ! k)) ''id'' = Some (VStr i)
               \<and> map_of (rs ! k) ''id'' = Some (VStr i)
               \<and> find_by_id i (agents (snd (bulk_upsert env clock (take (Suc k) xs) [] w)))
                   = Some (rs ! k)
               \<and> (\<forall>c v. map_of (bulk_agent_update (props (xs ! k))) c = Some (Some v)
                     \<longrightarrow> map_of (rs ! k) c = Some v)
               \<and> map_of (rs ! k) ''name''
                   = (if truthy (map_of (props (xs ! k)) ''name'')
                      then map_of (props (xs ! k)) ''name'' else Some (VStr ''''))
               \<and> (\<forall>t\<in>set big_five. \<forall>v.
                     (opt_chain (map_of (props (xs ! k)) ''bigFive'') t = Some v \<and> v \<noteq> VNull
                        \<longrightarrow> map_of (rs ! k) t = Some v)
                   \<and> (opt_chain (map_of (props (xs ! k)) ''bigFive'') t \<in> {None, Some VNull}
                        \<and> map_of (props (xs ! k)) t = Some v \<longrightarrow> map_of (rs ! k) t = Some v))
               \<and> (\<forall>t\<in>set romance. \<forall>v.
                     (opt_chain (map_of (props (xs ! k)) ''romance'') t = Some v \<and> v \<noteq> VNull
                        \<longrightarrow> map_of (rs ! k) t = Some v)
                   \<and> (opt_chain (map_of (props (xs ! k)) ''romance'') t \<in> {None, Some VNull}
                        \<and> map_of (props (xs ! k)) t = Some v \<longrightarrow> map_of (rs ! k) t = Some v))
               \<and> map_of (rs ! k) ''status''
                   = (case find_by_id i (agents (snd (bulk_upsert env clock (take k xs) [] w))) of
                        Some old \<Rightarrow> map_of old ''status''
                      | None \<Rightarrow> map_of (defaults env ''agent'') ''status''))"
    by blast
qed

theorem post_agents_bulk_upserts_witness:
  "post_agents_bulk example_env example_clock [(''agents'', VStr ''all'')] example_world
     = (Response 400 (error_body ''agents must be an array''), example_world)
   \<and> (\<exists>out w' rs. post_agents_bulk example_env example_clock example_bulk example_world
          = (Response 200 out, w')
        \<and> out = VObj [(''success'', VBool True), (''count'', VNum 2), (''agents'', VArr (map VObj rs))]
        \<and> map_of (rs ! 0) ''id'' = Some (VStr ''a1'')
        \<and> map_of (rs ! 0) ''name'' = Some (VStr '''')
        \<and> map_of (rs ! 0) ''status'' = Some (VStr ''coupled'')
        \<and> map_of (rs ! 1) ''id'' = Some (VStr ''a4'')
        \<and> map_of (rs ! 1) ''openness'' = Some (VNum 3)
        \<and> map_of (rs ! 1) ''status'' = Some (VStr ''single''))"
proof -
  note bulk = post_agents_bulk_upserts [of _ example_env example_clock example_world]
  have "\<forall>xs. map_of [(''agents'', VStr ''all'')] ''agents'' \<noteq> Some (VArr xs)" by simp
  with bulk [of "[(''agents'', VStr ''all'')]"]
  have bad: "post_agents_bulk example_env example_clock [(''agents'', VStr ''all'')] example_world
     = (Response 400 (error_body ''agents must be an array''), example_world)"
    by blast
  have "case fst (post_agents_bulk example_env example_clock example_bulk example_world) of
          Response code out \<Rightarrow> code = 200"
    by code_simp
  then obtain out w' where
    h: "post_agents_bulk example_env example_clock example_bulk example_world = (Response 200 out, w')"
    by (cases "post_agents_bulk example_env example_clock example_bulk example_world")
       (auto split: response.splits)
  let ?xs = "[VObj [(''id'', VStr ''a1'')], VObj example_agent]"
  have pre: "find_by_id ''a4'' (agents (snd (bulk_upsert example_env example_clock (take 1 ?xs) []
      example_world))) = None"
    by code_simp
  from bulk [of example_bulk, THEN conjunct2, rule_format, OF h]
  have "\<exists>rs. out = VObj [(''success'', VBool True), (''count'', VNum 2), (''agents'', VArr (map VObj rs))]
        \<and> map_of (rs ! 0) ''id'' = Some (VStr ''a1'')
        \<and> map_of (rs ! 0) ''name'' = Some (VStr '''')
        \<and> map_of (rs ! 0) ''status'' = Some (VStr ''coupled'')
        \<and> map_of (rs ! 1) ''id'' = Some (VStr ''a4'')
        \<and> map_of (rs ! 1) ''openness'' = Some (VNum 3)
        \<and> map_of (rs ! 1) ''status'' = Some (VStr ''single'')"
  proof (elim exE conjE)
    fix xs rs
    assume arr: "map_of example_bulk ''agents'' = Some (VArr xs)"
      and out: "out = VObj [(''success'', VBool True), (''count'', VNum (int (length rs))),
                         (''agents'', VArr (map VObj rs))]"
      and len: "length rs = length xs"
      and each: "\<forall>k<length xs. \<exists>i.
                 map_of (props (xs ! k)) ''id'' = Some (VStr i)
               \<and> map_of (rs ! k) ''id'' = Some (VStr i)
               \<and> find_by_id i (agents (snd (bulk_upsert example_env example_clock (take (Suc k) xs) [] example_world)))
                   = Some (rs ! k)
               \<and> (\<forall>c v. map_of (bulk_agent_update (props (xs ! k))) c = Some (Some v)
                     \<longrightarrow> map_of (rs ! k) c = Some v)
               \<and> map_of (rs ! k) ''name''
                   = (if truthy (map_of (props (xs ! k)) ''name'')
                      then map_of (props (xs ! k)) ''name'' else Some (VStr ''''))
               \<and> (\<forall>t\<in>set big_five. \<forall>v.
                     (opt_chain (map_of (props (xs ! k)) ''bigFive'') t = Some v \<and> v \<noteq> VNull
                        \<longrightarrow> map_of (rs ! k) t = Some v)
                   \<and> (opt_chain (map_of (props (xs ! k)) ''bigFive'') t \<in> {None, Some VNull}
                        \<and> map_of (props (xs ! k)) t = Some v \<longrightarrow> map_of (rs ! k) t = Some v))
               \<and> (\<forall>t\<in>set romance. \<forall>v.
                     (opt_chain (map_of (props (xs ! k)) ''romance'') t = Some v \<and> v \<noteq> VNull
                        \<longrightarrow> map_of (rs ! k) t = Some v)
                   \<and> (opt_chain (map_of (props (xs ! k)) ''romance'') t \<in> {None, Some VNull}
                        \<and> map_of (props (xs ! k)) t = Some v \<longrightarrow> map_of (rs ! k) t = Some v))
               \<and> map_of (rs ! k) ''status''
                   = (case find_by_id i (agents (snd (bulk_upsert example_env example_clock (take k xs) [] example_world))) of
                        Some old \<Rightarrow> map_of old ''status''
                      | None \<Rightarrow> map_of (defaults example_env ''agent'') ''status'')"
    from arr have xs: "xs = ?xs" by (simp add: example_bulk_def)
    have "0 < length xs" by (simp add: xs)
    from each [rule_format, OF this]
    have r0: "map_of (rs ! 0) ''id'' = Some (VStr ''a1'')
        \<and> map_of (rs ! 0) ''name'' = Some (VStr '''')
        \<and> map_of (rs ! 0) ''status'' = Some (VStr ''coupled'')"
    proof (elim exE conjE)
      fix i
      assume id: "map_of (props (xs ! 0)) ''id'' = Some (VStr i)"
        and col: "map_of (rs ! 0) ''id'' = Some (VStr i)"
        and name: "map_of (rs ! 0) ''name''
                   = (if truthy (map_of (props (xs ! 0)) ''name'')
                      then map_of (props (xs ! 0)) ''name'' else Some (VStr ''''))"
        and status: "map_of (rs ! 0) ''status''
                   = (case find_by_id i (agents (snd (bulk_upsert example_env example_clock (take 0 xs) [] example_world))) of
                        Some old \<Rightarrow> map_of old ''status''
                      | None \<Rightarrow> map_of (defaults example_env ''agent'') ''status'')"
      from id have i: "i = ''a1''" by (simp add: xs)
      from col name status show ?thesis
        by (simp add: i xs example_world_def find_by_id_def has_id_def)
    qed
    have "1 < length xs" by (simp add: xs)
    from each [rule_format, OF this]
    have r1: "map_of (rs ! 1) ''id'' = Some (VStr ''a4'')
        \<and> map_of (rs ! 1) ''openness'' = Some (VNum 3)
        \<and> map_of (rs ! 1) ''status'' = Some (VStr ''single'')"
    proof (elim exE conjE)
      fix i
      assume id: "map_of (props (xs ! 1)) ''id'' = Some (VStr i)"
        and col: "map_of (rs ! 1) ''id'' = Some (VStr i)"
        and five: "\<forall>t\<in>set big_five. \<forall>v.
                     (opt_chain (map_of (props (xs ! 1)) ''bigFive'') t = Some v \<and> v \<noteq> VNull
                        \<longrightarrow> map_of (rs ! 1) t = Some v)
                   \<and> (opt_chain (map_of (props (xs ! 1)) ''bigFive'') t \<in> {None, Some VNull}
                        \<and> map_of (props (xs ! 1)) t = Some v \<longrightarrow> map_of (rs ! 1) t = Some v)"
        and status: "map_of (rs ! 1) ''status''
                   = (case find_by_id i (agents (snd (bulk_upsert example_env example_clock (take 1 xs) [] example_world))) of
                        Some old \<Rightarrow> map_of old ''status''
                      | None \<Rightarrow> map_of (defaults example_env ''agent'') ''status'')"
      from id have i: "i = ''a4''" by (simp add: xs example_agent_def)
      have "''openness'' \<in> set big_five" by (simp add: big_five_def)
      with five have "opt_chain (map_of (props (xs ! 1)) ''bigFive'') ''openness'' = Some (VNum 3)
          \<and> VNum 3 \<noteq> VNull \<longrightarrow> map_of (rs ! 1) ''openness'' = Some (VNum 3)"
        by blast
      then have "map_of (rs ! 1) ''openness'' = Some (VNum 3)"
        by (simp add: xs example_agent_def)
      moreover from status have "map_of (rs ! 1) ''status'' = Some (VStr ''single'')"
        unfolding i xs pre by (simp add: example_env_def)
      ultimately show ?thesis using col i by simp
    qed
    from out len xs have "out = VObj [(''success'', VBool True), (''count'', VNum 2),
        (''agents'', VArr (map VObj rs))]" by simp
    with r0 r1 show ?thesis by blast
  qed
  with bad h show ?thesis by blast
qed

subsection \<open>POST /api/relationships\<close>

lemma with_agents_other:
  "k \<noteq> ''agent1'' \<Longrightarrow> k \<noteq> ''agent2'' \<Longrightarrow> map_of (with_agents w r) k = map_of r k"
  by (simp add: with_agents_def map_of_assign)













subsection \<open>PUT /api/relationships/:id\<close>

lemma update_relationship_Inr:
  assumes up: "update_relationship env now i data w = Inr (r, w')"
    and noid: "map_of data ''id'' = None"
  shows "\<exists>old. find_by_id i (relationships w) = Some old
           \<and> r = assign (assign old [(''updatedAt'', VDate now)]) data
           \<and> w' = w\<lparr>relationships := map (\<lambda>x. if has_id i x then r else x) (relationships w)\<rparr>
           \<and> find_by_id i (relationships w') = Some r"
proof -
  from up obtain old where old: "find_by_id i (relationships w) = Some old"
    and r: "r = assign (assign old [(''updatedAt'', VDate now)]) data"
    and w': "w' = w\<lparr>relationships := map (\<lambda>x. if has_id i x then r else x) (relationships w)\<rparr>"
    by (auto simp: update_relationship_def Let_def split: if_splits option.splits)
  have "has_id i old" using old by (rule find_by_id_has_id)
  then have "has_id i r"
    using noid by (simp add: r has_id_def map_of_assign)
  with old r w' show ?thesis by (simp add: find_by_id_replace)
qed

lemma ended_at_cases:
  "ended_at env e = Inr ended \<Longrightarrow>
     (case e of
        None \<Rightarrow> ended = None
      | Some v \<Rightarrow> \<exists>t. date_parse env v = Some t \<and> ended = Some (VDate t))"
  by (auto simp: ended_at_def split: option.splits)

text \<open>
  Claim C4. For every body, a PUT /api/relationships/:id that succeeds writes the status
  and the health score the body has, and as end timestamp the date parsed from the body's
  \<^verbatim>\<open>endedAt\<close>; each of the three the body does not have keeps its stored value, as
  does every other column but the updated timestamp, and every other row and table. The
  updated record, with both agents loaded, is the answer and is emitted once on the
  villa-feed namespace as \<^verbatim>\<open>relationship-update\<close>. A request that does not succeed
  changes and emits nothing.
\<close>

theorem put_relationship_partial_update:
  "(\<forall>out w'. put_relationship env now i body w = (Response 200 out, w') \<longrightarrow>
      (\<exists>old r. find_by_id i (relationships w) = Some old
         \<and> find_by_id i (relationships w') = Some r
         \<and> relationships w' = map (\<lambda>x. if has_id i x then r else x) (relationships w)
         \<and> out = VObj (with_agents w' r)
         \<and> emitted w' = emitted w @ [(''/villa-feed'', ''relationship-update'', out)]
         \<and> map_of r ''status''
             = (case map_of body ''status'' of Some v \<Rightarrow> Some v | None \<Rightarrow> map_of old ''status'')
         \<and> map_of r ''healthScore''
             = (case map_of body ''healthScore'' of
                  Some v \<Rightarrow> Some v | None \<Rightarrow> map_of old ''healthScore'')
         \<and> (case map_of body ''endedAt'' of
               None \<Rightarrow> map_of r ''endedAt'' = map_of old ''endedAt''
             | Some v \<Rightarrow> \<exists>t. date_parse env v = Some t \<and> map_of r ''endedAt'' = Some (VDate t))
         \<and> (\<forall>c. c \<noteq> ''status'' \<and> c \<noteq> ''healthScore'' \<and> c \<noteq> ''endedAt'' \<and> c \<noteq> ''updatedAt''
                \<longrightarrow> map_of r c = map_of old c)
         \<and> agents w' = agents w \<and> conversations w' = conversations w
         \<and> messages w' = messages w \<and> events w' = events w \<and> waitlist w' = waitlist w))
   \<and> (\<forall>code out w'. put_relationship env now i body w = (Response code out, w') \<and> code \<noteq> 200
        \<longrightarrow> w' = w)"
proof (intro conjI allI impI)
  fix out w'
  assume put: "put_relationship env now i body w = (Response 200 out, w')"
  let ?lit = "\<lambda>ended. [(''status'', map_of body ''status''),
                       (''healthScore'', map_of body ''healthScore''), (''endedAt'', ended)]"
  from put obtain ended r w1 where
    ended: "ended_at env (map_of body ''endedAt'') = Inr ended"
    and up: "update_relationship env now i (defined (?lit ended)) w = Inr (r, w1)"
    and out: "out = VObj (with_agents w1 r)"
    and w': "w' = w1\<lparr>emitted := emitted w1 @ [(''/villa-feed'', ''relationship-update'', out)]\<rparr>"
    by (auto simp: put_relationship_def error_body_def Let_def split: sum.splits)
  have dist: "distinct (map fst (?lit ended))" by simp
  have look: "map_of (defined (?lit ended)) c
      = (case map_of (?lit ended) c of Some (Some v) \<Rightarrow> Some v | _ \<Rightarrow> None)" for c
    using dist by (rule map_of_defined)
  have noid: "map_of (defined (?lit ended)) ''id'' = None"
    unfolding look by simp
  from update_relationship_Inr [OF up noid] obtain old where
    old: "find_by_id i (relationships w) = Some old"
    and r: "r = assign (assign old [(''updatedAt'', VDate now)]) (defined (?lit ended))"
    and w1: "w1 = w\<lparr>relationships := map (\<lambda>x. if has_id i x then r else x) (relationships w)\<rparr>"
    and found: "find_by_id i (relationships w1) = Some r"
    by blast
  have col: "map_of r c = (case map_of (?lit ended) c of
                 Some (Some v) \<Rightarrow> Some v
               | _ \<Rightarrow> if c = ''updatedAt'' then Some (VDate now) else map_of old c)" for c
    unfolding r map_of_assign look by (simp split: option.splits)
  have status: "map_of r ''status''
      = (case map_of body ''status'' of Some v \<Rightarrow> Some v | None \<Rightarrow> map_of old ''status'')"
    unfolding col by (simp split: option.splits)
  have health: "map_of r ''healthScore''
      = (case map_of body ''healthScore'' of Some v \<Rightarrow> Some v | None \<Rightarrow> map_of old ''healthScore'')"
    unfolding col by (simp split: option.splits)
  have end_col: "map_of r ''endedAt'' = (case ended of Some v \<Rightarrow> Some v | None \<Rightarrow> map_of old ''endedAt'')"
    unfolding col by (simp split: option.splits)
  have ended_col: "case map_of body ''endedAt'' of
               None \<Rightarrow> map_of r ''endedAt'' = map_of old ''endedAt''
             | Some v \<Rightarrow> \<exists>t. date_parse env v = Some t \<and> map_of r ''endedAt'' = Some (VDate t)"
    using ended_at_cases [OF ended] by (auto simp: end_col split: option.splits)
  have frame: "\<forall>c. c \<noteq> ''status'' \<and> c \<noteq> ''healthScore'' \<and> c \<noteq> ''endedAt'' \<and> c \<noteq> ''updatedAt''
                \<longrightarrow> map_of r c = map_of old c"
    unfolding col by simp
  show "\<exists>old r. find_by_id i (relationships w) = Some old
         \<and> find_by_id i (relationships w') = Some r
         \<and> relationships w' = map (\<lambda>x. if has_id i x then r else x) (relationships w)
         \<and> out = VObj (with_agents w' r)
         \<and> emitted w' = emitted w @ [(''/villa-feed'', ''relationship-update'', out)]
         \<and> map_of r ''status''
             = (case map_of body ''status'' of Some v \<Rightarrow> Some v | None \<Rightarrow> map_of old ''status'')
         \<and> map_of r ''healthScore''
             = (case map_of body ''healthScore'' of
                  Some v \<Rightarrow> Some v | None \<Rightarrow> map_of old ''healthScore'')
         \<and> (case map_of body ''endedAt'' of
               None \<Rightarrow> map_of r ''endedAt'' = map_of old ''endedAt''
             | Some v \<Rightarrow> \<exists>t. date_parse env v = Some t \<and> map_of r ''endedAt'' = Some (VDate t))
         \<and> (\<forall>c. c \<noteq> ''status'' \<and> c \<noteq> ''healthScore'' \<and> c \<noteq> ''endedAt'' \<and> c \<noteq> ''updatedAt''
                \<longrightarrow> map_of r c = map_of old c)
         \<and> agents w' = agents w \<and> conversations w' = conversations w
         \<and> messages w' = messages w \<and> events w' = events w \<and> waitlist w' = waitlist w"
    apply (rule exI [of _ old], rule exI [of _ r])
    using old found status health ended_col frame
    by (simp add: w' w1 out with_agents_def)
next
  fix code out w'
  assume "put_relationship env now i body w = (Response code out, w') \<and> code \<noteq> 200"
  then show "w' = w"
    by (auto simp: put_relationship_def Let_def split: sum.splits)
qed

theorem put_relationship_partial_update_witness:
  "(\<exists>out w' r.
      put_relationship example_env 500 ''r1'' example_ending example_world = (Response 200 out, w')
    \<and> find_by_id ''r1'' (relationships w') = Some r
    \<and> map_of r ''status'' = Some (VStr ''ended'')
    \<and> map_of r ''healthScore'' = Some (VNum 90)
    \<and> map_of r ''endedAt'' = Some (VDate 1704067200000)
    \<and> map_of r ''compatibilityScore'' = Some (VNum 80)
    \<and> emitted w' = [(''/villa-feed'', ''relationship-update'', out)])
   \<and> put_relationship example_env 500 ''r9'' example_ending example_world
       = (Response 500 (error_body ''Failed to update relationship''), example_world)"
proof -
  note upd = put_relationship_partial_update [of example_env 500 _ example_ending example_world]
  have "case fst (put_relationship example_env 500 ''r1'' example_ending example_world) of
          Response code out \<Rightarrow> code = 200"
    by code_simp
  then obtain out w' where
    h: "put_relationship example_env 500 ''r1'' example_ending example_world = (Response 200 out, w')"
    by (cases "put_relationship example_env 500 ''r1'' example_ending example_world")
       (auto split: response.splits)
  from upd [of "''r1''", THEN conjunct1, rule_format, OF h]
  have ok: "\<exists>r. find_by_id ''r1'' (relationships w') = Some r
    \<and> map_of r ''status'' = Some (VStr ''ended'')
    \<and> map_of r ''healthScore'' = Some (VNum 90)
    \<and> map_of r ''endedAt'' = Some (VDate 1704067200000)
    \<and> map_of r ''compatibilityScore'' = Some (VNum 80)
    \<and> emitted w' = [(''/villa-feed'', ''relationship-update'', out)]"
  proof (elim exE conjE)
    fix old r
    assume old: "find_by_id ''r1'' (relationships example_world) = Some old"
      and found: "find_by_id ''r1'' (relationships w') = Some r"
      and em: "emitted w' = emitted example_world @ [(''/villa-feed'', ''relationship-update'', out)]"
      and status: "map_of r ''status''
             = (case map_of example_ending ''status'' of
                  Some v \<Rightarrow> Some v | None \<Rightarrow> map_of old ''status'')"
      and health: "map_of r ''healthScore''
             = (case map_of example_ending ''healthScore'' of
                  Some v \<Rightarrow> Some v | None \<Rightarrow> map_of old ''healthScore'')"
      and ended: "case map_of example_ending ''endedAt'' of
               None \<Rightarrow> map_of r ''endedAt'' = map_of old ''endedAt''
             | Some v \<Rightarrow> \<exists>t. date_parse example_env v = Some t \<and> map_of r ''endedAt'' = Some (VDate t)"
      and frame: "\<forall>c. c \<noteq> ''status'' \<and> c \<noteq> ''healthScore'' \<and> c \<noteq> ''endedAt'' \<and> c \<noteq> ''updatedAt''
                \<longrightarrow> map_of r c = map_of old c"
    from old have o: "old = hd (relationships example_world)"
      by (simp add: example_world_def find_by_id_def has_id_def)
    from frame have "map_of r ''compatibilityScore'' = map_of old ''compatibilityScore''"
      by simp
    then have compat: "map_of r ''compatibilityScore'' = Some (VNum 80)"
      by (simp add: o example_world_def)
    from status have s: "map_of r ''status'' = Some (VStr ''ended'')"
      by (simp add: example_ending_def)
    from health have hs: "map_of r ''healthScore'' = Some (VNum 90)"
      by (simp add: example_ending_def o example_world_def)
    from ended have e: "map_of r ''endedAt'' = Some (VDate 1704067200000)"
      by (auto simp: example_ending_def example_env_def)
    from em have "emitted w' = [(''/villa-feed'', ''relationship-update'', out)]"
      by (simp add: example_world_def)
    with found s hs e compat show ?thesis by blast
  qed
  have "fst (put_relationship example_env 500 ''r9'' example_ending example_world)
      = Response 500 (error_body ''Failed to update relationship'')"
    by code_simp
  then obtain w2 where
    f: "put_relationship example_env 500 ''r9'' example_ending example_world
        = (Response 500 (error_body ''Failed to update relationship''), w2)"
    by (cases "put_relationship example_env 500 ''r9'' example_ending example_world") auto
  have "w2 = example_world"
    by (rule upd [of "''r9''", THEN conjunct2, rule_format]) (rule conjI, rule f, simp)
  with f h ok show ?thesis by blast
qed

subsection \<open>Ordering and cutting\<close>

lemma order_desc_set [simp]: "set (order_desc key rows) = set rows"
  by (simp add: order_desc_def)

lemma order_desc_length [simp]: "length (order_desc key rows) = length rows"
  by (simp add: order_desc_def)

lemma sorted_desc_sort_key:
  "sorted_wrt (\<lambda>a b. key b \<le> (key a :: int)) (sort_key (\<lambda>r. - key r) rows)"
proof -
  have "sorted (map (\<lambda>r. - key r) (sort_key (\<lambda>r. - key r) rows))"
    by (rule sorted_sort_key)
  then show ?thesis
    by (simp add: sorted_map)
qed

lemma order_desc_sorted: "sorted_wrt (\<lambda>a b. key b \<le> key a) (order_desc key rows)"
  unfolding order_desc_def by (rule sorted_desc_sort_key)

lemma prisma_take_sorted: "sorted_wrt R xs \<Longrightarrow> sorted_wrt R (prisma_take n xs)"
  by (simp add: prisma_take_def)

lemma prisma_take_subset: "set (prisma_take n xs) \<subseteq> set xs"
  by (auto simp: prisma_take_def dest: in_set_takeD in_set_dropD)

lemma prisma_take_length: "0 \<le> n \<Longrightarrow> length (prisma_take n xs) \<le> nat n"
  by (simp add: prisma_take_def)

text \<open>What a positive \<^verbatim>\<open>take\<close> leaves out of an ordered list comes after all it keeps.\<close>

lemma take_sorted_rest:
  assumes "sorted_wrt R xs" "x \<in> set (take n xs)" "y \<in> set (drop n xs)"
  shows "R x y"
proof -
  from assms(1) have "sorted_wrt R (take n xs @ drop n xs)" by simp
  with assms(2,3) show ?thesis
    unfolding sorted_wrt_append by blast
qed

subsection \<open>GET /api/relationships\<close>

lemma with_agents_loaded:
  "map_of (with_agents w r) ''agent1'' = Some (load id (agents w) (map_of r ''agent1Id''))"
  "map_of (with_agents w r) ''agent2'' = Some (load id (agents w) (map_of r ''agent2Id''))"
  by (simp_all add: with_agents_def map_of_assign)

lemma load_found:
  "ref = Some (VStr x) \<Longrightarrow> find_by_id x rows = Some a \<Longrightarrow> load f rows ref = VObj (f a)"
  by (simp add: load_def)

lemma column_in_status:
  "column_in ''status'' [VStr ''talking'', VStr ''coupled''] r
     \<longleftrightarrow> map_of r ''status'' = Some (VStr ''talking'') \<or> map_of r ''status'' = Some (VStr ''coupled'')"
  by (auto simp: column_in_def split: option.splits)

text \<open>
  Claim C8. GET /api/relationships returns exactly the stored relationships whose status
  is \<^verbatim>\<open>"talking"\<close> or \<^verbatim>\<open>"coupled"\<close>, each once: none that is \<^verbatim>\<open>"ended"\<close> or has any
  other status. The list is ordered by the updated timestamp, the latest first, and each
  relationship carries its two agents, loaded by their ids.
\<close>

theorem get_relationships_active_only:
  "\<exists>rows. get_relationships w = Response 200 (VArr (map (\<lambda>r. VObj (with_agents w r)) rows))
     \<and> mset rows = mset (filter (\<lambda>r. map_of r ''status'' = Some (VStr ''talking'')
                                   \<or> map_of r ''status'' = Some (VStr ''coupled'')) (relationships w))
     \<and> (\<forall>r\<in>set rows. r \<in> set (relationships w)
           \<and> (map_of r ''status'' = Some (VStr ''talking'') \<or> map_of r ''status'' = Some (VStr ''coupled''))
           \<and> map_of r ''status'' \<noteq> Some (VStr ''ended'')
           \<and> (\<forall>s. map_of r ''status'' = Some (VStr s) \<longrightarrow> s = ''talking'' \<or> s = ''coupled'')
           \<and> (\<forall>x a. map_of r ''agent1Id'' = Some (VStr x) \<and> find_by_id x (agents w) = Some a
                 \<longrightarrow> map_of (with_agents w r) ''agent1'' = Some (VObj a))
           \<and> (\<forall>x a. map_of r ''agent2Id'' = Some (VStr x) \<and> find_by_id x (agents w) = Some a
                 \<longrightarrow> map_of (with_agents w r) ''agent2'' = Some (VObj a))
           \<and> (\<forall>c. c \<noteq> ''agent1'' \<and> c \<noteq> ''agent2'' \<longrightarrow> map_of (with_agents w r) c = map_of r c))
     \<and> sorted_wrt (\<lambda>a b. time_of (map_of b ''updatedAt'') \<le> time_of (map_of a ''updatedAt'')) rows"
proof -
  let ?active = "\<lambda>r. map_of r ''status'' = Some (VStr ''talking'')
                     \<or> map_of r ''status'' = Some (VStr ''coupled'')"
  define rows where "rows = order_desc (\<lambda>r. time_of (map_of r ''updatedAt''))
     (filter ?active (relationships w))"
  have filt: "filter (column_in ''status'' [VStr ''talking'', VStr ''coupled'']) (relationships w)
      = filter ?active (relationships w)"
    by (rule filter_cong) (simp_all add: column_in_status)
  have get: "get_relationships w = Response 200 (VArr (map (\<lambda>r. VObj (with_agents w r)) rows))"
    by (simp add: get_relationships_def rows_def filt)
  have ms: "mset rows = mset (filter ?active (relationships w))"
    unfolding rows_def order_desc_def by (rule mset_sort)
  have each: "r \<in> set (relationships w)
           \<and> ?active r
           \<and> map_of r ''status'' \<noteq> Some (VStr ''ended'')
           \<and> (\<forall>s. map_of r ''status'' = Some (VStr s) \<longrightarrow> s = ''talking'' \<or> s = ''coupled'')
           \<and> (\<forall>x a. map_of r ''agent1Id'' = Some (VStr x) \<and> find_by_id x (agents w) = Some a
                 \<longrightarrow> map_of (with_agents w r) ''agent1'' = Some (VObj a))
           \<and> (\<forall>x a. map_of r ''agent2Id'' = Some (VStr x) \<and> find_by_id x (agents w) = Some a
                 \<longrightarrow> map_of (with_agents w r) ''agent2'' = Some (VObj a))
           \<and> (\<forall>c. c \<noteq> ''agent1'' \<and> c \<noteq> ''agent2'' \<longrightarrow> map_of (with_agents w r) c = map_of r c)"
    if "r \<in> set rows" for r
  proof -
    from that have "r \<in> set (relationships w)" and act: "?active r"
      by (auto simp: rows_def)
    moreover from act have "map_of r ''status'' \<noteq> Some (VStr ''ended'')"
      "\<forall>s. map_of r ''status'' = Some (VStr s) \<longrightarrow> s = ''talking'' \<or> s = ''coupled''"
      by auto
    ultimately show ?thesis
      by (auto simp: with_agents_loaded load_found with_agents_other)
  qed
  have "sorted_wrt (\<lambda>a b. time_of (map_of b ''updatedAt'') \<le> time_of (map_of a ''updatedAt'')) rows"
    unfolding rows_def by (rule order_desc_sorted)
  then show ?thesis
    by (intro exI [of _ rows] conjI ballI get ms each)
qed

theorem get_relationships_active_only_witness:
  "\<exists>rows. get_relationships example_world2
       = Response 200 (VArr (map (\<lambda>r. VObj (with_agents example_world2 r)) rows))
     \<and> example_talking \<in> set rows
     \<and> map_of example_talking ''status'' = Some (VStr ''talking'')
     \<and> map_of example_talking ''agent1Id'' = Some (VStr ''a3'')
     \<and> find_by_id ''a3'' (agents example_world2) = Some (agents example_world2 ! 2)
     \<and> map_of (with_agents example_world2 example_talking) ''agent1''
         = Some (VObj (agents example_world2 ! 2))
     \<and> map_of (with_agents example_world2 example_talking) ''id'' = Some (VStr ''r3'')"
  using get_relationships_active_only [of example_world2]
proof (elim exE conjE)
  fix rows
  let ?active = "\<lambda>r. map_of r ''status'' = Some (VStr ''talking'')
                     \<or> map_of r ''status'' = Some (VStr ''coupled'')"
  assume get: "get_relationships example_world2
       = Response 200 (VArr (map (\<lambda>r. VObj (with_agents example_world2 r)) rows))"
    and ms: "mset rows = mset (filter ?active (relationships example_world2))"
    and each: "\<forall>r\<in>set rows. r \<in> set (relationships example_world2)
           \<and> (map_of r ''status'' = Some (VStr ''talking'') \<or> map_of r ''status'' = Some (VStr ''coupled''))
           \<and> map_of r ''status'' \<noteq> Some (VStr ''ended'')
           \<and> (\<forall>s. map_of r ''status'' = Some (VStr s) \<longrightarrow> s = ''talking'' \<or> s = ''coupled'')
           \<and> (\<forall>x a. map_of r ''agent1Id'' = Some (VStr x) \<and> find_by_id x (agents example_world2) = Some a
                 \<longrightarrow> map_of (with_agents example_world2 r) ''agent1'' = Some (VObj a))
           \<and> (\<forall>x a. map_of r ''agent2Id'' = Some (VStr x) \<and> find_by_id x (agents example_world2) = Some a
                 \<longrightarrow> map_of (with_agents example_world2 r) ''agent2'' = Some (VObj a))
           \<and> (\<forall>c. c \<noteq> ''agent1'' \<and> c \<noteq> ''agent2''
                 \<longrightarrow> map_of (with_agents example_world2 r) c = map_of r c)"
  have st: "map_of example_talking ''status'' = Some (VStr ''talking'')"
    and a1: "map_of example_talking ''agent1Id'' = Some (VStr ''a3'')"
    and idc: "map_of example_talking ''id'' = Some (VStr ''r3'')"
    by (simp_all add: example_talking_def)
  have "example_talking \<in> set (filter ?active (relationships example_world2))"
    using st by (simp add: example_world2_def)
  then have "example_talking \<in># mset (filter ?active (relationships example_world2))"
    by (simp only: set_mset_mset)
  then have "example_talking \<in># mset rows" by (simp only: ms)
  then have mem: "example_talking \<in> set rows" by (simp only: set_mset_mset)
  have ag: "find_by_id ''a3'' (agents example_world2) = Some (agents example_world2 ! 2)"
    by (simp add: example_world2_def example_world_def find_by_id_def has_id_def)
  from each [rule_format, OF mem]
  have loaded: "map_of (with_agents example_world2 example_talking) ''agent1''
         = Some (VObj (agents example_world2 ! 2))
       \<and> map_of (with_agents example_world2 example_talking) ''id'' = Some (VStr ''r3'')"
  proof (elim conjE)
    assume l: "\<forall>x a. map_of example_talking ''agent1Id'' = Some (VStr x)
                 \<and> find_by_id x (agents example_world2) = Some a
                 \<longrightarrow> map_of (with_agents example_world2 example_talking) ''agent1'' = Some (VObj a)"
      and f: "\<forall>c. c \<noteq> ''agent1'' \<and> c \<noteq> ''agent2''
                 \<longrightarrow> map_of (with_agents example_world2 example_talking) c = map_of example_talking c"
    from l [rule_format, of "''a3''" "agents example_world2 ! 2"] a1 ag
    have "map_of (with_agents example_world2 example_talking) ''agent1''
         = Some (VObj (agents example_world2 ! 2))"
      by simp
    moreover from f [rule_format, of "''id''"] idc
    have "map_of (with_agents example_world2 example_talking) ''id'' = Some (VStr ''r3'')"
      by simp
    ultimately show ?thesis by simp
  qed
  from get mem st a1 ag loaded show ?thesis
    by (intro exI [of _ rows] conjI) simp_all
qed

subsection \<open>GET /api/highlights\<close>

lemma gte_iff: "gte v k \<longleftrightarrow> (\<exists>n. v = Some (VNum n) \<and> k \<le> n)"
  by (cases "(v, k)" rule: gte.cases) simp_all

lemma event_include_other:
  "c \<noteq> ''relationship'' \<Longrightarrow> map_of (event_include w e) c = map_of e c"
  by (simp add: event_include_def map_of_assign)

lemma prisma_take_all: "int (length xs) \<le> n \<Longrightarrow> prisma_take n xs = xs"
  by (simp add: prisma_take_def)

lemma prisma_take_rest:
  assumes "0 \<le> n" "sorted_wrt R xs" "y \<in> set xs" "y \<notin> set (prisma_take n xs)"
    "x \<in> set (prisma_take n xs)"
  shows "R x y"
proof -
  from assms(1) have t: "prisma_take n xs = take (nat n) xs" by (simp add: prisma_take_def)
  from assms(3) have "y \<in> set (take (nat n) xs @ drop (nat n) xs)" by simp
  with assms(4) have "y \<in> set (drop (nat n) xs)" unfolding t set_append by blast
  with assms(2,5) show ?thesis unfolding t by (metis take_sorted_rest)
qed

text \<open>
  Claim C6. For every stored set of events, GET /api/highlights returns only stored events
  that are featured or have a drama score of 75 or more, at most 20 of them, ordered by
  drama score descending; they are the highest-scored ones (an event of the kind that is
  left out scores no more than any returned), and all of them when there are at most 20.
\<close>

theorem get_highlights_filtered:
  "\<exists>rows. get_highlights w = Response 200 (VArr (map (\<lambda>e. VObj (event_include w e)) rows))
     \<and> length rows \<le> 20
     \<and> (\<forall>e\<in>set rows. e \<in> set (events w)
           \<and> (map_of e ''isFeatured'' = Some (VBool True)
                \<or> (\<exists>n. map_of e ''dramaScore'' = Some (VNum n) \<and> 75 \<le> n))
           \<and> (\<forall>c. c \<noteq> ''relationship'' \<longrightarrow> map_of (event_include w e) c = map_of e c))
     \<and> sorted_wrt (\<lambda>a b. num_of (map_of b ''dramaScore'') \<le> num_of (map_of a ''dramaScore'')) rows
     \<and> (\<forall>e\<in>set (events w). highlight e \<and> e \<notin> set rows \<longrightarrow>
           (\<forall>x\<in>set rows. num_of (map_of e ''dramaScore'') \<le> num_of (map_of x ''dramaScore'')))
     \<and> (length (filter highlight (events w)) \<le> 20 \<longrightarrow>
           mset rows = mset (filter highlight (events w)))"
proof -
  let ?score = "\<lambda>e. num_of (map_of e ''dramaScore'')"
  define ordered where "ordered = order_desc ?score (filter highlight (events w))"
  define rows where "rows = prisma_take 20 ordered"
  have get: "get_highlights w = Response 200 (VArr (map (\<lambda>e. VObj (event_include w e)) rows))"
    by (simp add: get_highlights_def rows_def ordered_def)
  have len: "length rows \<le> 20"
    using prisma_take_length [of 20 ordered] by (simp add: rows_def)
  have sub: "set rows \<subseteq> set ordered"
    unfolding rows_def by (rule prisma_take_subset)
  have ord: "set ordered = {e \<in> set (events w). highlight e}"
    by (auto simp: ordered_def)
  have each: "\<forall>e\<in>set rows. e \<in> set (events w)
           \<and> (map_of e ''isFeatured'' = Some (VBool True)
                \<or> (\<exists>n. map_of e ''dramaScore'' = Some (VNum n) \<and> 75 \<le> n))
           \<and> (\<forall>c. c \<noteq> ''relationship'' \<longrightarrow> map_of (event_include w e) c = map_of e c)"
  proof
    fix e assume "e \<in> set rows"
    with sub ord have "e \<in> set (events w)" "highlight e" by auto
    then show "e \<in> set (events w)
           \<and> (map_of e ''isFeatured'' = Some (VBool True)
                \<or> (\<exists>n. map_of e ''dramaScore'' = Some (VNum n) \<and> 75 \<le> n))
           \<and> (\<forall>c. c \<noteq> ''relationship'' \<longrightarrow> map_of (event_include w e) c = map_of e c)"
      by (simp add: highlight_def gte_iff event_include_other)
  qed
  have so: "sorted_wrt (\<lambda>a b. ?score b \<le> ?score a) ordered"
    unfolding ordered_def by (rule order_desc_sorted)
  then have sorted: "sorted_wrt (\<lambda>a b. ?score b \<le> ?score a) rows"
    unfolding rows_def by (rule prisma_take_sorted)
  have cut: "\<forall>e\<in>set (events w). highlight e \<and> e \<notin> set rows \<longrightarrow>
           (\<forall>x\<in>set rows. ?score e \<le> ?score x)"
  proof (intro ballI impI)
    fix e x assume e: "e \<in> set (events w)" "highlight e \<and> e \<notin> set rows"
      and x: "x \<in> set rows"
    from e ord have "e \<in> set ordered" by simp
    from prisma_take_rest [OF _ so this, of 20 x] e x
    show "?score e \<le> ?score x" by (simp add: rows_def)
  qed
  have all: "length (filter highlight (events w)) \<le> 20 \<longrightarrow>
           mset rows = mset (filter highlight (events w))"
  proof
    assume "length (filter highlight (events w)) \<le> 20"
    then have "rows = ordered"
      by (simp add: rows_def ordered_def prisma_take_all)
    then show "mset rows = mset (filter highlight (events w))"
      by (simp add: ordered_def order_desc_def)
  qed
  show ?thesis
    by (rule exI [of _ rows]) (rule conjI get len each sorted cut all)+
qed

theorem get_highlights_filtered_witness:
  "\<exists>rows. get_highlights example_world
       = Response 200 (VArr (map (\<lambda>e. VObj (event_include example_world e)) rows))
     \<and> length rows \<le> 20
     \<and> events example_world ! 1 \<in> set rows
     \<and> map_of (events example_world ! 1) ''dramaScore'' = Some (VNum 90)
     \<and> events example_world ! 2 \<in> set rows
     \<and> map_of (events example_world ! 2) ''isFeatured'' = Some (VBool True)
     \<and> events example_world ! 0 \<notin> set rows"
  using get_highlights_filtered [of example_world]
proof (elim exE conjE)
  fix rows
  assume get: "get_highlights example_world
       = Response 200 (VArr (map (\<lambda>e. VObj (event_include example_world e)) rows))"
    and len: "length rows \<le> 20"
    and each: "\<forall>e\<in>set rows. e \<in> set (events example_world)
           \<and> (map_of e ''isFeatured'' = Some (VBool True)
                \<or> (\<exists>n. map_of e ''dramaScore'' = Some (VNum n) \<and> 75 \<le> n))
           \<and> (\<forall>c. c \<noteq> ''relationship'' \<longrightarrow> map_of (event_include example_world e) c = map_of e c)"
    and all: "length (filter highlight (events example_world)) \<le> 20 \<longrightarrow>
           mset rows = mset (filter highlight (events example_world))"
  have hl: "filter highlight (events example_world)
      = [events example_world ! 1, events example_world ! 2]"
    by (simp add: example_world_def highlight_def)
  with all have "mset rows = mset [events example_world ! 1, events example_world ! 2]"
    by simp
  then have "set rows = set [events example_world ! 1, events example_world ! 2]"
    by (rule mset_eq_setD)
  then have mem: "events example_world ! 1 \<in> set rows" "events example_world ! 2 \<in> set rows"
    by simp_all
  have cols: "map_of (events example_world ! 1) ''dramaScore'' = Some (VNum 90)"
    "map_of (events example_world ! 2) ''isFeatured'' = Some (VBool True)"
    by (simp_all add: example_world_def)
  have "\<not> (map_of (events example_world ! 0) ''isFeatured'' = Some (VBool True)
                \<or> (\<exists>n. map_of (events example_world ! 0) ''dramaScore'' = Some (VNum n) \<and> 75 \<le> n))"
    by (simp add: example_world_def)
  with each have out: "events example_world ! 0 \<notin> set rows" by blast
  show ?thesis
    by (rule exI [of _ rows]) (rule conjI get len mem cols out)+
qed

subsection \<open>GET /api/villa-feed\<close>

lemma feed_limit_positive: "0 < n \<Longrightarrow> feed_limit (Some n) = n"
  by (simp add: feed_limit_def)

lemma slice0_take: "0 \<le> n \<Longrightarrow> slice0 n xs = take (nat n) xs"
  by (simp add: slice0_def)

lemma feed_item_columns:
  "map_of (feed_item tag x) ''type'' = Some (VStr tag)"
  "map_of (feed_item tag x) ''data'' = Some (VObj x)"
  "map_of (feed_item tag x) ''timestamp'' = map_of x ''createdAt''"
  by (cases "map_of x ''createdAt''"; simp add: feed_item_def)+

lemma message_include_other:
  "c \<noteq> ''from'' \<Longrightarrow> c \<noteq> ''to'' \<Longrightarrow> c \<noteq> ''conversation'' \<Longrightarrow>
     map_of (message_include w m) c = map_of m c"
  by (simp add: message_include_def map_of_assign)

text \<open>The rows a query with a positive \<^verbatim>\<open>take\<close> returns: that many when there are
  as many, all otherwise; in descending order, and the ones left out are no later than
  any returned.\<close>

lemma most_recent:
  fixes key :: "obj \<Rightarrow> int" and P :: "obj \<Rightarrow> bool" and rows :: "obj list"
  assumes n: "0 < n"
  defines "got \<equiv> prisma_take n (order_desc key (filter P rows))"
  shows "length got = min (nat n) (length (filter P rows))"
    and "\<forall>x\<in>set got. x \<in> set rows \<and> P x"
    and "sorted_wrt (\<lambda>a b. key b \<le> key a) got"
    and "\<forall>y\<in>set rows. P y \<and> y \<notin> set got \<longrightarrow> (\<forall>x\<in>set got. key y \<le> key x)"
    and "length (filter P rows) \<le> nat n \<longrightarrow> mset got = mset (filter P rows)"
proof -
  let ?ordered = "order_desc key (filter P rows)"
  have so: "sorted_wrt (\<lambda>a b. key b \<le> key a) ?ordered" by (rule order_desc_sorted)
  from n show "length got = min (nat n) (length (filter P rows))"
    by (simp add: got_def prisma_take_def min.commute)
  show "\<forall>x\<in>set got. x \<in> set rows \<and> P x"
    using prisma_take_subset [of n ?ordered] by (auto simp: got_def)
  show "sorted_wrt (\<lambda>a b. key b \<le> key a) got"
    unfolding got_def using so by (rule prisma_take_sorted)
  show "\<forall>y\<in>set rows. P y \<and> y \<notin> set got \<longrightarrow> (\<forall>x\<in>set got. key y \<le> key x)"
  proof (intro ballI impI)
    fix y x assume y: "y \<in> set rows" "P y \<and> y \<notin> set got" and x: "x \<in> set got"
    then have "y \<in> set ?ordered" by simp
    from prisma_take_rest [OF _ so this, of n x] n y x
    show "key y \<le> key x" by (simp add: got_def)
  qed
  show "length (filter P rows) \<le> nat n \<longrightarrow> mset got = mset (filter P rows)"
  proof
    assume "length (filter P rows) \<le> nat n"
    with n have "got = ?ordered" by (simp add: got_def prisma_take_all)
    then show "mset got = mset (filter P rows)" by (simp add: order_desc_def)
  qed
qed

text \<open>
  Claim C5 fails as stated at the limit 0: \<^verbatim>\<open>parseInt("0") || 50\<close> is 50, so
  GET /api/villa-feed?limit=0 returns up to 50 items; on the example store, its two public
  events and its message.
\<close>

theorem get_villa_feed_limit_zero_counterexample:
  "(case get_villa_feed (Some 0) example_world of
      Response code (VArr items) \<Rightarrow> code = 200 \<and> length items = 3
    | _ \<Rightarrow> False)"
  by code_simp

text \<open>
  Claim C5, amended. For every positive limit N that the client takes (N below
  \<open>2 ^ 63\<close>) and every store, GET /api/villa-feed fetches the N most recent public
  events and the N most recent messages, all of a kind when there are fewer than N: each
  list ordered by creation time descending, the rows left out being no later than any
  fetched. It tags each event \<^verbatim>\<open>"event"\<close> and each message \<^verbatim>\<open>"message"\<close>, with the row
  and its relations as data and its creation time as timestamp, merges the two lists,
  sorts the merge by timestamp descending and returns its first N items (all when there
  are fewer). A limit of \<open>2 ^ 63\<close> or more is answered with status 500. A limit of 0, and
  one that is not a number, is replaced by 50.
\<close>

theorem get_villa_feed_positive_limit:
  "(0 < n \<and> n < 2 ^ 63 \<longrightarrow>
     (\<exists>evs msgs merged.
        get_villa_feed (Some n) w = Response 200 (VArr (map VObj (take (nat n) merged)))
      \<and> length (take (nat n) merged) \<le> nat n
      \<and> length (take (nat n) merged) = min (nat n) (length evs + length msgs)
      \<and> length evs \<le> nat n
      \<and> length evs
          = min (nat n) (length (filter (\<lambda>e. map_of e ''isPublic'' = Some (VBool True)) (events w)))
      \<and> (\<forall>e\<in>set evs. e \<in> set (events w) \<and> map_of e ''isPublic'' = Some (VBool True))
      \<and> sorted_wrt (\<lambda>a b. time_of (map_of b ''createdAt'') \<le> time_of (map_of a ''createdAt'')) evs
      \<and> (\<forall>y\<in>set (events w). map_of y ''isPublic'' = Some (VBool True) \<and> y \<notin> set evs \<longrightarrow>
            (\<forall>x\<in>set evs. time_of (map_of y ''createdAt'') \<le> time_of (map_of x ''createdAt'')))
      \<and> (length (filter (\<lambda>e. map_of e ''isPublic'' = Some (VBool True)) (events w)) \<le> nat n \<longrightarrow>
            mset evs = mset (filter (\<lambda>e. map_of e ''isPublic'' = Some (VBool True)) (events w)))
      \<and> length msgs \<le> nat n
      \<and> length msgs = min (nat n) (length (messages w))
      \<and> (\<forall>m\<in>set msgs. m \<in> set (messages w))
      \<and> sorted_wrt (\<lambda>a b. time_of (map_of b ''createdAt'') \<le> time_of (map_of a ''createdAt'')) msgs
      \<and> (\<forall>y\<in>set (messages w). y \<notin> set msgs \<longrightarrow>
            (\<forall>x\<in>set msgs. time_of (map_of y ''createdAt'') \<le> time_of (map_of x ''createdAt'')))
      \<and> (length (messages w) \<le> nat n \<longrightarrow> mset msgs = mset (messages w))
      \<and> mset merged = mset (map (\<lambda>e. feed_item ''event'' (event_include w e)) evs)
                        + mset (map (\<lambda>m. feed_item ''message'' (message_include w m)) msgs)
      \<and> sorted_wrt (\<lambda>a b. time_of (map_of b ''timestamp'') \<le> time_of (map_of a ''timestamp'')) merged
      \<and> sorted_wrt (\<lambda>a b. time_of (map_of b ''timestamp'') \<le> time_of (map_of a ''timestamp''))
            (take (nat n) merged)
      \<and> (\<forall>x\<in>set (take (nat n) merged).
            (map_of x ''type'' = Some (VStr ''event'')
              \<and> (\<exists>e\<in>set evs. map_of x ''data'' = Some (VObj (event_include w e))
                    \<and> map_of x ''timestamp'' = map_of e ''createdAt''))
          \<or> (map_of x ''type'' = Some (VStr ''message'')
              \<and> (\<exists>m\<in>set msgs. map_of x ''data'' = Some (VObj (message_include w m))
                    \<and> map_of x ''timestamp'' = map_of m ''createdAt'')))))
   \<and> (2 ^ 63 \<le> n \<longrightarrow>
        get_villa_feed (Some n) w = Response 500 (error_body ''Failed to fetch villa feed''))
   \<and> get_villa_feed None w = get_villa_feed (Some 50) w
   \<and> get_villa_feed (Some 0) w = get_villa_feed (Some 50) w"
proof (intro conjI impI)
  assume range: "0 < n \<and> n < 2 ^ 63"
  then have n: "0 < n" and inr: "take_in_range n" by (simp_all add: take_in_range_def)
  let ?created = "\<lambda>r. time_of (map_of r ''createdAt'')"
  let ?public = "\<lambda>e. map_of e ''isPublic'' = Some (VBool True)"
  let ?stamp = "\<lambda>x. time_of (map_of x ''timestamp'')"
  define evs where "evs = prisma_take n (order_desc ?created (filter ?public (events w)))"
  define msgs where
    "msgs = prisma_take n (order_desc ?created (filter (\<lambda>m. True) (messages w)))"
  define tagged where "tagged = map (\<lambda>e. feed_item ''event'' (event_include w e)) evs
     @ map (\<lambda>m. feed_item ''message'' (message_include w m)) msgs"
  define merged where "merged = sort_key (\<lambda>x. - ?stamp x) tagged"
  have mf: "merged_feed (map (event_include w) evs) (map (message_include w) msgs) = merged"
    by (simp add: merged_feed_def merged_def tagged_def comp_def)
  have get: "get_villa_feed (Some n) w = Response 200 (VArr (map VObj (take (nat n) merged)))"
    using n inr
    by (simp add: get_villa_feed_def find_many_take_def feed_limit_positive slice0_take
          mf [symmetric] evs_def msgs_def Let_def)
  have len: "length (take (nat n) merged) \<le> nat n" by simp
  have len_eq: "length (take (nat n) merged) = min (nat n) (length evs + length msgs)"
    by (simp add: merged_def tagged_def min.commute)
  note ev = most_recent [OF n, where key = ?created and P = ?public and rows = "events w",
      folded evs_def]
  note ms = most_recent [OF n, where key = ?created and P = "\<lambda>m. True" and rows = "messages w",
      folded msgs_def]
  have ev0: "length evs \<le> nat n" using ev(1) by simp
  have ms0: "length msgs \<le> nat n" using ms(1) by simp
  have ms1: "length msgs = min (nat n) (length (messages w))" using ms(1) by simp
  have ms2: "\<forall>m\<in>set msgs. m \<in> set (messages w)" using ms(2) by simp
  have ms4: "\<forall>y\<in>set (messages w). y \<notin> set msgs \<longrightarrow> (\<forall>x\<in>set msgs. ?created y \<le> ?created x)"
    using ms(4) by simp
  have ms5: "length (messages w) \<le> nat n \<longrightarrow> mset msgs = mset (messages w)"
    using ms(5) by simp
  have bag: "mset merged = mset (map (\<lambda>e. feed_item ''event'' (event_include w e)) evs)
                      + mset (map (\<lambda>m. feed_item ''message'' (message_include w m)) msgs)"
    by (simp add: merged_def tagged_def)
  have so: "sorted_wrt (\<lambda>a b. ?stamp b \<le> ?stamp a) merged"
    unfolding merged_def by (rule sorted_desc_sort_key)
  then have so_cut: "sorted_wrt (\<lambda>a b. ?stamp b \<le> ?stamp a) (take (nat n) merged)"
    by (rule sorted_wrt_take)
  have tags: "\<forall>x\<in>set (take (nat n) merged).
          (map_of x ''type'' = Some (VStr ''event'')
            \<and> (\<exists>e\<in>set evs. map_of x ''data'' = Some (VObj (event_include w e))
                  \<and> map_of x ''timestamp'' = map_of e ''createdAt''))
        \<or> (map_of x ''type'' = Some (VStr ''message'')
            \<and> (\<exists>m\<in>set msgs. map_of x ''data'' = Some (VObj (message_include w m))
                  \<and> map_of x ''timestamp'' = map_of m ''createdAt''))"
  proof
    fix x assume "x \<in> set (take (nat n) merged)"
    then have "x \<in> set merged" by (rule in_set_takeD)
    then have "x \<in> set tagged" by (simp add: merged_def)
    then consider e where "e \<in> set evs" "x = feed_item ''event'' (event_include w e)"
      | m where "m \<in> set msgs" "x = feed_item ''message'' (message_include w m)"
      by (auto simp: tagged_def)
    then show "(map_of x ''type'' = Some (VStr ''event'')
            \<and> (\<exists>e\<in>set evs. map_of x ''data'' = Some (VObj (event_include w e))
                  \<and> map_of x ''timestamp'' = map_of e ''createdAt''))
        \<or> (map_of x ''type'' = Some (VStr ''message'')
            \<and> (\<exists>m\<in>set msgs. map_of x ''data'' = Some (VObj (message_include w m))
                  \<and> map_of x ''timestamp'' = map_of m ''createdAt''))"
    proof cases
      case 1
      then show ?thesis
        by (intro disjI1 conjI bexI [of _ e])
           (simp_all add: feed_item_columns event_include_other)
    next
      case 2
      then show ?thesis
        by (intro disjI2 conjI bexI [of _ m])
           (simp_all add: feed_item_columns message_include_other)
    qed
  qed
  show "\<exists>evs msgs merged.
        get_villa_feed (Some n) w = Response 200 (VArr (map VObj (take (nat n) merged)))
      \<and> length (take (nat n) merged) \<le> nat n
      \<and> length (take (nat n) merged) = min (nat n) (length evs + length msgs)
      \<and> length evs \<le> nat n
      \<and> length evs
          = min (nat n) (length (filter (\<lambda>e. map_of e ''isPublic'' = Some (VBool True)) (events w)))
      \<and> (\<forall>e\<in>set evs. e \<in> set (events w) \<and> map_of e ''isPublic'' = Some (VBool True))
      \<and> sorted_wrt (\<lambda>a b. time_of (map_of b ''createdAt'') \<le> time_of (map_of a ''createdAt'')) evs
      \<and> (\<forall>y\<in>set (events w). map_of y ''isPublic'' = Some (VBool True) \<and> y \<notin> set evs \<longrightarrow>
            (\<forall>x\<in>set evs. time_of (map_of y ''createdAt'') \<le> time_of (map_of x ''createdAt'')))
      \<and> (length (filter (\<lambda>e. map_of e ''isPublic'' = Some (VBool True)) (events w)) \<le> nat n \<longrightarrow>
            mset evs = mset (filter (\<lambda>e. map_of e ''isPublic'' = Some (VBool True)) (events w)))
      \<and> length msgs \<le> nat n
      \<and> length msgs = min (nat n) (length (messages w))
      \<and> (\<forall>m\<in>set msgs. m \<in> set (messages w))
      \<and> sorted_wrt (\<lambda>a b. time_of (map_of b ''createdAt'') \<le> time_of (map_of a ''createdAt'')) msgs
      \<and> (\<forall>y\<in>set (messages w). y \<notin> set msgs \<longrightarrow>
            (\<forall>x\<in>set msgs. time_of (map_of y ''createdAt'') \<le> time_of (map_of x ''createdAt'')))
      \<and> (length (messages w) \<le> nat n \<longrightarrow> mset msgs = mset (messages w))
      \<and> mset merged = mset (map (\<lambda>e. feed_item ''event'' (event_include w e)) evs)
                        + mset (map (\<lambda>m. feed_item ''message'' (message_include w m)) msgs)
      \<and> sorted_wrt (\<lambda>a b. time_of (map_of b ''timestamp'') \<le> time_of (map_of a ''timestamp'')) merged
      \<and> sorted_wrt (\<lambda>a b. time_of (map_of b ''timestamp'') \<le> time_of (map_of a ''timestamp''))
            (take (nat n) merged)
      \<and> (\<forall>x\<in>set (take (nat n) merged).
            (map_of x ''type'' = Some (VStr ''event'')
              \<and> (\<exists>e\<in>set evs. map_of x ''data'' = Some (VObj (event_include w e))
                    \<and> map_of x ''timestamp'' = map_of e ''createdAt''))
          \<or> (map_of x ''type'' = Some (VStr ''message'')
              \<and> (\<exists>m\<in>set msgs. map_of x ''data'' = Some (VObj (message_include w m))
                    \<and> map_of x ''timestamp'' = map_of m ''createdAt'')))"
    by (rule exI [of _ evs], rule exI [of _ msgs], rule exI [of _ merged])
       (rule conjI get len len_eq ev0 ev ms0 ms1 ms2 ms(3) ms4 ms5 bag so so_cut tags)+
next
  assume "2 ^ 63 \<le> n"
  then have "0 < n" "\<not> take_in_range n" by (simp_all add: take_in_range_def)
  then show "get_villa_feed (Some n) w = Response 500 (error_body ''Failed to fetch villa feed'')"
    by (simp add: get_villa_feed_def find_many_take_def feed_limit_positive Let_def)
next
  show "get_villa_feed None w = get_villa_feed (Some 50) w"
    by (simp add: get_villa_feed_def feed_limit_def)
  show "get_villa_feed (Some 0) w = get_villa_feed (Some 50) w"
    by (simp add: get_villa_feed_def feed_limit_def)
qed

theorem get_villa_feed_positive_limit_witness:
  "(0::int) < 2 \<and> (2::int) < 2 ^ 63
   \<and> (\<exists>items. get_villa_feed (Some 2) example_world = Response 200 (VArr (map VObj items))
        \<and> length items = 2
        \<and> sorted_wrt (\<lambda>a b. time_of (map_of b ''timestamp'') \<le> time_of (map_of a ''timestamp''))
             items
        \<and> (map_of (hd items) ''type'' = Some (VStr ''event'')
             \<or> map_of (hd items) ''type'' = Some (VStr ''message'')))
   \<and> (2::int) ^ 63 \<le> 2 ^ 64
   \<and> get_villa_feed (Some (2 ^ 64)) example_world
       = Response 500 (error_body ''Failed to fetch villa feed'')"
proof -
  have pos: "(0::int) < 2 \<and> (2::int) < 2 ^ 63" by simp
  have big: "(2::int) ^ 63 \<le> 2 ^ 64" by simp
  have two: "(case get_villa_feed (Some 2) example_world of
      Response code (VArr items) \<Rightarrow> length items = 2 | _ \<Rightarrow> False)"
    by code_simp
  from get_villa_feed_positive_limit [of 2 example_world, THEN conjunct1, THEN mp, OF pos]
  have ok: "\<exists>items. get_villa_feed (Some 2) example_world = Response 200 (VArr (map VObj items))
        \<and> length items = 2
        \<and> sorted_wrt (\<lambda>a b. time_of (map_of b ''timestamp'') \<le> time_of (map_of a ''timestamp''))
             items
        \<and> (map_of (hd items) ''type'' = Some (VStr ''event'')
             \<or> map_of (hd items) ''type'' = Some (VStr ''message''))"
  proof (elim exE conjE)
    fix evs msgs merged
    assume get: "get_villa_feed (Some 2) example_world
        = Response 200 (VArr (map VObj (take (nat 2) merged)))"
      and so: "sorted_wrt (\<lambda>a b. time_of (map_of b ''timestamp'') \<le> time_of (map_of a ''timestamp''))
          (take (nat 2) merged)"
      and tags: "\<forall>x\<in>set (take (nat 2) merged).
          (map_of x ''type'' = Some (VStr ''event'')
            \<and> (\<exists>e\<in>set evs. map_of x ''data'' = Some (VObj (event_include example_world e))
                  \<and> map_of x ''timestamp'' = map_of e ''createdAt''))
        \<or> (map_of x ''type'' = Some (VStr ''message'')
            \<and> (\<exists>m\<in>set msgs. map_of x ''data'' = Some (VObj (message_include example_world m))
                  \<and> map_of x ''timestamp'' = map_of m ''createdAt''))"
    let ?items = "take (nat 2) merged"
    from two have l: "length ?items = 2" unfolding get by simp
    then have "?items \<noteq> []" by auto
    then have "hd ?items \<in> set ?items" by (rule hd_in_set)
    with tags have "map_of (hd ?items) ''type'' = Some (VStr ''event'')
             \<or> map_of (hd ?items) ''type'' = Some (VStr ''message'')"
      by blast
    with get l so show ?thesis
      by (intro exI [of _ ?items] conjI)
  qed
  from get_villa_feed_positive_limit [of "2 ^ 64" example_world, THEN conjunct2, THEN conjunct1,
      THEN mp, OF big]
  have err: "get_villa_feed (Some (2 ^ 64)) example_world
       = Response 500 (error_body ''Failed to fetch villa feed'')" .
  from pos ok big err show ?thesis by (intro conjI) simp_all
qed

subsection \<open>POST /api/waitlist\<close>




text \<open>A truthy email that is neither a string nor an array has no \<^verbatim>\<open>includes\<close>: the
  call throws, and the request is answered with status 500.\<close>

lemma post_waitlist_not_a_string:
  "map_of body ''email'' = Some (VNum k) \<Longrightarrow> k \<noteq> 0 \<Longrightarrow>
     post_waitlist env now body w = (Response 500 (error_body ''Failed to add to waitlist''), w)"
  by (simp add: post_waitlist_def)



subsection \<open>POST /api/messages\<close>

lemma create_message_Inr:
  assumes "create_message env created data w = Inr (m, w1)"
  shows "m = assign (assign (defaults env ''message'')
                 [(''id'', VStr (fresh_id (messages w))), (''createdAt'', VDate created)])
               (defined data)"
    and "w1 = w\<lparr>messages := messages w @ [m]\<rparr>"
    and "is_ref (conversations w) (map_of (defined data) ''conversationId'')"
  using assms by (auto simp: create_message_def Let_def split: if_splits)

lemma update_conversation_Inr:
  assumes up: "update_conversation env ref data w = Inr (c, w')"
    and dist: "distinct (map fst data)"
    and noid: "map_of data ''id'' = None"
  shows "\<exists>i old. ref = Some (VStr i) \<and> find_by_id i (conversations w) = Some old
           \<and> c = assign old (defined data)
           \<and> w' = w\<lparr>conversations := map (\<lambda>x. if has_id i x then c else x) (conversations w)\<rparr>
           \<and> find_by_id i (conversations w') = Some c"
proof -
  from up obtain i where ref: "ref = Some (VStr i)"
    by (auto simp: update_conversation_def split: option.splits val.splits)
  with up obtain old where old: "find_by_id i (conversations w) = Some old"
    and c: "c = assign old (defined data)"
    and w': "w' = w\<lparr>conversations := map (\<lambda>x. if has_id i x then c else x) (conversations w)\<rparr>"
    by (auto simp: update_conversation_def Let_def split: if_splits option.splits)
  have "has_id i old" using old by (rule find_by_id_has_id)
  then have "has_id i c"
    using noid by (simp add: c has_id_def map_of_assign map_of_defined [OF dist])
  with ref old c w' show ?thesis by (simp add: find_by_id_replace)
qed

text \<open>
  Claim C9. A POST /api/messages that succeeds first creates the message, stamped with the
  clock at its creation, then sets the last-message timestamp of the conversation the body
  names to the clock read after that. A read of the conversation then shows that
  timestamp, which is equal to or after the message's creation timestamp when the clock
  has not run backwards between the two. The message, with its two agents loaded, is the
  answer and is emitted once on the villa-feed namespace as \<^verbatim>\<open>new-message\<close>, wrapped as
  type \<^verbatim>\<open>"message"\<close>, data and timestamp.
\<close>

theorem post_message_bumps_conversation:
  assumes post: "post_message env created now body w = (Response 200 out, w')"
    and clock: "created \<le> now"
  shows "\<exists>cid m conv message.
      map_of body ''conversationId'' = Some (VStr cid)
    \<and> messages w' = messages w @ [m]
    \<and> map_of m ''conversationId'' = Some (VStr cid)
    \<and> map_of m ''createdAt'' = Some (VDate created)
    \<and> message = assign m [(''from'', load id (agents w) (map_of m ''fromId'')),
                          (''to'', load id (agents w) (map_of m ''toId''))]
    \<and> out = VObj message
    \<and> find_by_id cid (conversations w') = Some conv
    \<and> map_of conv ''lastMessageAt'' = Some (VDate now)
    \<and> time_of (map_of m ''createdAt'') \<le> time_of (map_of conv ''lastMessageAt'')
    \<and> emitted w' = emitted w @
         [(''/villa-feed'', ''new-message'',
           VObj [(''type'', VStr ''message''), (''data'', out), (''timestamp'', VDate created)])]"
proof -
  let ?data = "[(''conversationId'', map_of body ''conversationId''),
                (''fromId'', map_of body ''fromId''),
                (''toId'', map_of body ''toId''),
                (''content'', map_of body ''content''),
                (''sentiment'', js_or (map_of body ''sentiment'') (Some VNull))]"
  let ?touch = "[(''lastMessageAt'', Some (VDate now))]"
  from post obtain m w1 conv w2 where
    cr: "create_message env created ?data w = Inr (m, w1)"
    and up: "update_conversation env (map_of body ''conversationId'') ?touch w1 = Inr (conv, w2)"
    and out: "out = VObj (assign m [(''from'', load id (agents w1) (map_of m ''fromId'')),
                                    (''to'', load id (agents w1) (map_of m ''toId''))])"
    and w': "w' = w2\<lparr>emitted := emitted w2 @
               [(''/villa-feed'', ''new-message'',
                 VObj (defined [(''type'', Some (VStr ''message'')), (''data'', Some out),
                   (''timestamp'', map_of (assign m [(''from'', load id (agents w1) (map_of m ''fromId'')),
                                    (''to'', load id (agents w1) (map_of m ''toId''))]) ''createdAt'')]))]\<rparr>"
    by (auto simp: post_message_def error_body_def Let_def split: sum.splits)
  have dist: "distinct (map fst ?data)" by simp
  have look: "map_of (defined ?data) c
      = (case map_of ?data c of Some (Some v) \<Rightarrow> Some v | _ \<Rightarrow> None)" for c
    using dist by (rule map_of_defined)
  note m = create_message_Inr(1) [OF cr]
  note w1 = create_message_Inr(2) [OF cr]
  have created: "map_of m ''createdAt'' = Some (VDate created)"
    unfolding m map_of_assign look by simp
  have mconv: "map_of m ''conversationId'' = map_of body ''conversationId''"
    using create_message_Inr(3) [OF cr]
    unfolding m map_of_assign look by (auto simp: is_ref_def split: option.splits)
  from update_conversation_Inr [OF up] obtain cid old where
    cid: "map_of body ''conversationId'' = Some (VStr cid)"
    and conv: "conv = assign old (defined ?touch)"
    and w2: "w2 = w1\<lparr>conversations := map (\<lambda>x. if has_id cid x then conv else x) (conversations w1)\<rparr>"
    and found: "find_by_id cid (conversations w2) = Some conv"
    by auto
  have last: "map_of conv ''lastMessageAt'' = Some (VDate now)"
    by (simp add: conv map_of_assign)
  define message where "message = assign m [(''from'', load id (agents w) (map_of m ''fromId'')),
                          (''to'', load id (agents w) (map_of m ''toId''))]"
  have out': "out = VObj message"
    by (simp add: out message_def w1)
  have stamp: "map_of message ''createdAt'' = Some (VDate created)"
    by (simp add: message_def map_of_assign created)
  have msgs: "messages w' = messages w @ [m]"
    by (simp add: w' w2 w1)
  have convs: "find_by_id cid (conversations w') = Some conv"
    using found by (simp add: w')
  have em: "emitted w' = emitted w @
         [(''/villa-feed'', ''new-message'',
           VObj [(''type'', VStr ''message''), (''data'', out), (''timestamp'', VDate created)])]"
    using stamp by (simp add: w' w2 w1 message_def)
  have le: "time_of (map_of m ''createdAt'') \<le> time_of (map_of conv ''lastMessageAt'')"
    using clock by (simp add: created last)
  have mc: "map_of m ''conversationId'' = Some (VStr cid)"
    using mconv cid by simp
  show ?thesis
    by (rule exI [of _ cid], rule exI [of _ m], rule exI [of _ conv], rule exI [of _ message])
       (rule conjI cid msgs mc created message_def out' convs last le em)+
qed

theorem post_message_bumps_conversation_witness:
  "(100::int) \<le> 101
   \<and> (\<exists>out w' conv.
        post_message example_env 100 101 example_message example_world = (Response 200 out, w')
      \<and> length (messages w') = 2
      \<and> find_by_id ''c1'' (conversations w') = Some conv
      \<and> map_of conv ''lastMessageAt'' = Some (VDate 101)
      \<and> emitted w' = [(''/villa-feed'', ''new-message'',
           VObj [(''type'', VStr ''message''), (''data'', out), (''timestamp'', VDate 100)])])"
proof -
  have le: "(100::int) \<le> 101" by simp
  have "case fst (post_message example_env 100 101 example_message example_world) of
          Response code out \<Rightarrow> code = 200"
    by code_simp
  then obtain out w' where
    h: "post_message example_env 100 101 example_message example_world = (Response 200 out, w')"
    by (cases "post_message example_env 100 101 example_message example_world")
       (auto split: response.splits)
  from post_message_bumps_conversation [OF h le]
  have "\<exists>conv. length (messages w') = 2
      \<and> find_by_id ''c1'' (conversations w') = Some conv
      \<and> map_of conv ''lastMessageAt'' = Some (VDate 101)
      \<and> emitted w' = [(''/villa-feed'', ''new-message'',
           VObj [(''type'', VStr ''message''), (''data'', out), (''timestamp'', VDate 100)])]"
  proof (elim exE conjE)
    fix cid m conv message
    assume cid: "map_of example_message ''conversationId'' = Some (VStr cid)"
      and msgs: "messages w' = messages example_world @ [m]"
      and found: "find_by_id cid (conversations w') = Some conv"
      and last: "map_of conv ''lastMessageAt'' = Some (VDate 101)"
      and em: "emitted w' = emitted example_world @
         [(''/villa-feed'', ''new-message'',
           VObj [(''type'', VStr ''message''), (''data'', out), (''timestamp'', VDate 100)])]"
    from cid have c: "cid = ''c1''" by (simp add: example_message_def)
    from msgs have l: "length (messages w') = 2" by (simp add: example_world_def)
    from em have e: "emitted w' = [(''/villa-feed'', ''new-message'',
           VObj [(''type'', VStr ''message''), (''data'', out), (''timestamp'', VDate 100)])]"
      by (simp add: example_world_def)
    from l found last e show ?thesis
      unfolding c by (intro exI [of _ conv] conjI)
  qed
  with h have "\<exists>out w' conv.
        post_message example_env 100 101 example_message example_world = (Response 200 out, w')
      \<and> length (messages w') = 2
      \<and> find_by_id ''c1'' (conversations w') = Some conv
      \<and> map_of conv ''lastMessageAt'' = Some (VDate 101)
      \<and> emitted w' = [(''/villa-feed'', ''new-message'',
           VObj [(''type'', VStr ''message''), (''data'', out), (''timestamp'', VDate 100)])]"
    by blast
  with le show ?thesis by (rule conjI)
qed

text \<open>The two writes are not one transaction: when the update of the conversation
  fails, the request is answered with status 500 and the message stays.\<close>

lemma post_message_update_fails:
  assumes "create_message env created
             [(''conversationId'', map_of body ''conversationId''),
              (''fromId'', map_of body ''fromId''),
              (''toId'', map_of body ''toId''),
              (''content'', map_of body ''content''),
              (''sentiment'', js_or (map_of body ''sentiment'') (Some VNull))] w = Inr (m, w1)"
    and "update_conversation env (map_of body ''conversationId'')
             [(''lastMessageAt'', Some (VDate now))] w1 = Inl e"
  shows "post_message env created now body w
           = (Response 500 (error_body ''Failed to create message''), w1)
         \<and> messages w1 = messages w @ [m] \<and> emitted w1 = emitted w"
  using assms create_message_Inr(2) [OF assms(1)]
  by (simp add: post_message_def Let_def)

end
